theory Spec2Isabelle
  imports Main
begin

section \<open>Jobs and their status\<close>

text \<open>
  \<^verbatim>\<open>types/common.ts\<close>:
  \<^verbatim>\<open>export type JobStatus = "running" | "completed" | "failed" | "pending" | "paused" | "stopped";\<close>
  and the interface \<^verbatim>\<open>FineTuningJob\<close> with its eight fields. The numeric field
  \<^verbatim>\<open>progress\<close> is a percentage; it is kept as a natural number.
\<close>

datatype JobStatus = Running | Completed | Failed | Pending | Paused | Stopped

record FineTuningJob =
  job_id :: string
  job_name :: string
  job_model :: string
  job_dataset :: string
  job_status :: JobStatus
  job_progress :: nat
  job_createdAt :: string
  job_duration :: string

section \<open>The actions dropdown of the jobs list\<close>

text \<open>
  The \<^verbatim>\<open>DropdownMenuContent\<close> of \<^verbatim>\<open>Home\<close> renders its items in source order; each
  conditional item is \<^verbatim>\<open>{cond && (<DropdownMenuItem ...>)}\<close>.
\<close>

datatype MenuItem =
  ItemView | ItemStart | ItemEdit | ItemPause | ItemStop
  | ItemDownloadModel | ItemViewLogs | ItemRetry | ItemDelete

definition actionsMenu :: "JobStatus \<Rightarrow> MenuItem list" where
  "actionsMenu st =
     [ItemView]
     @ (if st = Pending \<or> st = Paused then [ItemStart] else [])
     @ (if st = Pending then [ItemEdit] else [])
     @ (if st = Running then [ItemPause] else [])
     @ (if st = Running \<or> st = Paused then [ItemStop] else [])
     @ (if st = Completed then [ItemDownloadModel] else [])
     @ (if st = Running \<or> st = Completed \<or> st = Failed then [ItemViewLogs] else [])
     @ (if st = Failed then [ItemRetry] else [])
     @ [ItemDelete]"

section \<open>The job controller of the specification\<close>

text \<open>
  The backend that owns the status of a job is not among the source files: the user
  interface only posts to \<^verbatim>\<open>/jobs/{id}/start\<close>, \<^verbatim>\<open>/pause\<close> and \<^verbatim>\<open>/stop\<close>. The
  controller below is therefore written from section 4.4 of the specification.
\<close>

datatype Trigger = Start | Pause | Stop | Edit | RunnerCompletion | RunnerError

datatype ControllerError = InvalidState JobStatus Trigger | PreconditionFailed

text \<open>
  Modelled from the spec: the table of legal transitions of section 4.4 (the job
  controller itself is not in the repository's files). One line per row of the table,
  \<open>None\<close> where the table has no row.
\<close>

fun transition :: "JobStatus \<Rightarrow> Trigger \<Rightarrow> JobStatus option" where
  "transition Pending Start = Some Running"
| "transition Running Pause = Some Paused"
| "transition Paused Start = Some Running"
| "transition Running Stop = Some Stopped"
| "transition Paused Stop = Some Stopped"
| "transition Running RunnerCompletion = Some Completed"
| "transition Running RunnerError = Some Failed"
| "transition Pending Edit = Some Pending"
| "transition _ _ = None"

text \<open>
  Modelled from the spec: the controller's handling of one trigger (not in the
  repository's files). A trigger with no row fails with \<open>InvalidState\<close>, naming the
  current status and the attempted action; \<open>start\<close> validates that the referenced model
  and dataset still exist and fails with \<open>PreconditionFailed\<close> otherwise; completion
  forces the progress to 100. The result is the job afterwards together with the error,
  if any.
\<close>

definition applyTrigger ::
  "bool \<Rightarrow> FineTuningJob \<Rightarrow> Trigger \<Rightarrow> FineTuningJob \<times> ControllerError option" where
  "applyTrigger refsExist job t =
     (case transition (job_status job) t of
        None \<Rightarrow> (job, Some (InvalidState (job_status job) t))
      | Some st' \<Rightarrow>
          if t = Start \<and> \<not> refsExist then (job, Some PreconditionFailed)
          else if t = RunnerCompletion then (job\<lparr>job_status := st', job_progress := 100\<rparr>, None)
          else (job\<lparr>job_status := st'\<rparr>, None))"

text \<open>
  The edges of the table, written once more as a relation: the statement the controller
  is compared with.
\<close>

inductive edge :: "JobStatus \<Rightarrow> Trigger \<Rightarrow> JobStatus \<Rightarrow> bool" where
  start_pending: "edge Pending Start Running"
| pause_running: "edge Running Pause Paused"
| start_paused: "edge Paused Start Running"
| stop_running: "edge Running Stop Stopped"
| stop_paused: "edge Paused Stop Stopped"
| completion: "edge Running RunnerCompletion Completed"
| failure: "edge Running RunnerError Failed"
| edit_pending: "edge Pending Edit Pending"

section \<open>Strings of the JavaScript runtime\<close>

text \<open>
  A JavaScript string is modelled by a \<^typ>\<open>string\<close>: a list of code units below 256.
  The functions below are the runtime's \<^verbatim>\<open>String.prototype.trim\<close>,
  \<^verbatim>\<open>split\<close> with a one-character separator, \<^verbatim>\<open>toLowerCase\<close>, \<^verbatim>\<open>toUpperCase\<close>,
  \<^verbatim>\<open>Array.prototype.join\<close> and the decimal rendering of a non-negative integer in a
  template literal (below \<open>10\<^sup>2\<^sup>1\<close>, where the runtime prints all digits), restricted to
  that range of code units: the white space of \<^verbatim>\<open>trim\<close> is the white space and the line
  terminators below 256, and the two letters whose capitals lie beyond 255 (code units
  181 and 255) are left as they are by \<open>toUpperCase\<close>.
\<close>

definition isJSWhitespace :: "char \<Rightarrow> bool" where
  "isJSWhitespace c \<longleftrightarrow>
     c = CHR 0x09 \<or> c = CHR 0x0A \<or> c = CHR 0x0B \<or> c = CHR 0x0C \<or> c = CHR 0x0D
     \<or> c = CHR 0x20 \<or> c = CHR 0xA0"

definition trim :: "string \<Rightarrow> string" where
  "trim s = rev (dropWhile isJSWhitespace (rev (dropWhile isJSWhitespace s)))"

fun split :: "char \<Rightarrow> string \<Rightarrow> string list" where
  "split sep [] = [[]]"
| "split sep (c # cs) =
     (if c = sep then [] # split sep cs
      else (case split sep cs of [] \<Rightarrow> [[c]] | x # xs \<Rightarrow> (c # x) # xs))"

fun join :: "string \<Rightarrow> string list \<Rightarrow> string" where
  "join sep [] = []"
| "join sep [x] = x"
| "join sep (x # y # ys) = x @ sep @ join sep (y # ys)"

definition toLowerChar :: "char \<Rightarrow> char" where
  "toLowerChar c =
     (let n = (of_char c :: nat) in
      if (65 \<le> n \<and> n \<le> 90) \<or> (192 \<le> n \<and> n \<le> 222 \<and> n \<noteq> 215) then char_of (n + 32) else c)"

definition toLowerCase :: "string \<Rightarrow> string" where
  "toLowerCase s = map toLowerChar s"

definition toUpperChars :: "char \<Rightarrow> string" where
  "toUpperChars c =
     (let n = (of_char c :: nat) in
      if n = 223 then ''SS''
      else if (97 \<le> n \<and> n \<le> 122) \<or> (224 \<le> n \<and> n \<le> 254 \<and> n \<noteq> 247) then [char_of (n - 32)]
      else [c])"

definition toUpperCase :: "string \<Rightarrow> string" where
  "toUpperCase s = concat (map toUpperChars s)"

definition digitChar :: "nat \<Rightarrow> char" where
  "digitChar d = ''0123456789'' ! (d mod 10)"

fun numberToString :: "nat \<Rightarrow> string" where
  "numberToString n =
     (if n < 10 then [digitChar n] else numberToString (n div 10) @ [digitChar (n mod 10)])"

declare numberToString.simps [simp del]

section \<open>JSON of the JavaScript runtime\<close>

text \<open>
  \<^verbatim>\<open>JSON.stringify\<close> and \<^verbatim>\<open>JSON.parse\<close> are the runtime's. A number is kept as the text
  of its literal: its floating-point value is not modelled. \<open>serializeJSON gap indent\<close>
  follows SerializeJSONProperty of ECMA-262 with the gap string of the third argument of
  \<^verbatim>\<open>JSON.stringify\<close>; \<open>parseValue\<close> is a recursive-descent reader of the JSON grammar
  whose first argument bounds the number of nested calls, and \<open>JSON_parse\<close> gives it more
  than the length of the text, which is enough for every text that parses at all (lemma
  \<open>JSON_parse_fuel\<close>). \<open>None\<close> stands for the SyntaxError that \<^verbatim>\<open>JSON.parse\<close> throws.
  The code unit of a four-digit hexadecimal escape is read modulo 256, the range of code
  units of the model.
\<close>

datatype json =
  JNull | JBool bool | JNumber string | JString string
  | JArray "json list" | JObject "(string \<times> json) list"

definition hexDigit :: "nat \<Rightarrow> char" where
  "hexDigit d = ''0123456789abcdef'' ! (d mod 16)"

definition quoteChar :: "char \<Rightarrow> string" where
  "quoteChar c =
     (if c = CHR 0x08 then [CHR 0x5C, CHR ''b'']
      else if c = CHR 0x09 then [CHR 0x5C, CHR ''t'']
      else if c = CHR 0x0A then [CHR 0x5C, CHR ''n'']
      else if c = CHR 0x0C then [CHR 0x5C, CHR ''f'']
      else if c = CHR 0x0D then [CHR 0x5C, CHR ''r'']
      else if c = CHR 0x22 then [CHR 0x5C, CHR 0x22]
      else if c = CHR 0x5C then [CHR 0x5C, CHR 0x5C]
      else if (of_char c :: nat) < 32
        then [CHR 0x5C, CHR ''u'', CHR ''0'', CHR ''0'', hexDigit (of_char c div 16), hexDigit (of_char c mod 16)]
      else [c])"

definition quoteJSONString :: "string \<Rightarrow> string" where
  "quoteJSONString s = [CHR 0x22] @ concat (map quoteChar s) @ [CHR 0x22]"

fun serializeJSON :: "string \<Rightarrow> string \<Rightarrow> json \<Rightarrow> string" where
  "serializeJSON gap indent JNull = ''null''"
| "serializeJSON gap indent (JBool b) = (if b then ''true'' else ''false'')"
| "serializeJSON gap indent (JNumber t) = t"
| "serializeJSON gap indent (JString s) = quoteJSONString s"
| "serializeJSON gap indent (JArray xs) =
     (if xs = [] then ''[]''
      else if gap = [] then ''['' @ join '','' (map (serializeJSON gap (indent @ gap)) xs) @ '']''
      else ''['' @ [CHR 0x0A] @ (indent @ gap)
           @ join ('','' @ [CHR 0x0A] @ (indent @ gap)) (map (serializeJSON gap (indent @ gap)) xs)
           @ [CHR 0x0A] @ indent @ '']'')"
| "serializeJSON gap indent (JObject kvs) =
     (if kvs = [] then ''{}''
      else if gap = [] then
        ''{'' @ join '','' (map (\<lambda>(k, v). quoteJSONString k @ '':'' @ serializeJSON gap (indent @ gap) v) kvs) @ ''}''
      else ''{'' @ [CHR 0x0A] @ (indent @ gap)
           @ join ('','' @ [CHR 0x0A] @ (indent @ gap))
               (map (\<lambda>(k, v). quoteJSONString k @ '': '' @ serializeJSON gap (indent @ gap) v) kvs)
           @ [CHR 0x0A] @ indent @ ''}'')"


definition isJSONWhitespace :: "char \<Rightarrow> bool" where
  "isJSONWhitespace c \<longleftrightarrow> c = CHR 0x09 \<or> c = CHR 0x0A \<or> c = CHR 0x0D \<or> c = CHR 0x20"

definition skipWS :: "string \<Rightarrow> string" where
  "skipWS s = dropWhile isJSONWhitespace s"

definition isDigit :: "char \<Rightarrow> bool" where
  "isDigit c \<longleftrightarrow> 48 \<le> (of_char c :: nat) \<and> (of_char c :: nat) \<le> 57"

definition hexVal :: "char \<Rightarrow> nat option" where
  "hexVal c =
     (let n = (of_char c :: nat) in
      if 48 \<le> n \<and> n \<le> 57 then Some (n - 48)
      else if 97 \<le> n \<and> n \<le> 102 then Some (n - 87)
      else if 65 \<le> n \<and> n \<le> 70 then Some (n - 55)
      else None)"

definition unescape :: "char \<Rightarrow> char option" where
  "unescape e =
     (if e = CHR 0x22 then Some (CHR 0x22)
      else if e = CHR 0x5C then Some (CHR 0x5C)
      else if e = CHR ''/'' then Some (CHR ''/'')
      else if e = CHR ''b'' then Some (CHR 0x08)
      else if e = CHR ''f'' then Some (CHR 0x0C)
      else if e = CHR ''n'' then Some (CHR 0x0A)
      else if e = CHR ''r'' then Some (CHR 0x0D)
      else if e = CHR ''t'' then Some (CHR 0x09)
      else None)"

definition consChar :: "char \<Rightarrow> (string \<times> string) option \<Rightarrow> (string \<times> string) option" where
  "consChar c r = (case r of None \<Rightarrow> None | Some (s, rest) \<Rightarrow> Some (c # s, rest))"

fun parseStringBody :: "string \<Rightarrow> (string \<times> string) option" where
  "parseStringBody [] = None"
| "parseStringBody (c # cs) =
     (if c = CHR 0x22 then Some ([], cs)
      else if c = CHR 0x5C then
        (case cs of
           [] \<Rightarrow> None
         | e # cs' \<Rightarrow>
             if e = CHR ''u'' then
               (case cs' of
                  h1 # h2 # h3 # h4 # cs'' \<Rightarrow>
                    (case (hexVal h1, hexVal h2, hexVal h3, hexVal h4) of
                       (Some a, Some b, Some c', Some d) \<Rightarrow>
                         consChar (char_of (((a * 16 + b) * 16 + c') * 16 + d)) (parseStringBody cs'')
                     | _ \<Rightarrow> None)
                | _ \<Rightarrow> None)
             else (case unescape e of
                     None \<Rightarrow> None
                   | Some d \<Rightarrow> consChar d (parseStringBody cs')))
      else if (of_char c :: nat) < 32 then None
      else consChar c (parseStringBody cs))"

definition parseDigits :: "string \<Rightarrow> (string \<times> string) option" where
  "parseDigits s =
     (if takeWhile isDigit s = [] then None
      else Some (takeWhile isDigit s, dropWhile isDigit s))"

text \<open>
  The number grammar: an optional minus sign, an integer part that is \<^verbatim>\<open>0\<close> or starts
  with a digit from 1 to 9, an optional fraction, an optional exponent.
\<close>

definition parseSign :: "string \<Rightarrow> string \<times> string" where
  "parseSign s = (case s of c # r \<Rightarrow> if c = CHR ''-'' then ([c], r) else ([], s) | [] \<Rightarrow> ([], s))"

definition parseInt :: "string \<Rightarrow> (string \<times> string) option" where
  "parseInt s = (case s of c # r \<Rightarrow> if c = CHR ''0'' then Some ([c], r) else parseDigits s | [] \<Rightarrow> None)"

definition parseFrac :: "string \<Rightarrow> (string \<times> string) option" where
  "parseFrac s =
     (case s of
        c # r \<Rightarrow>
          if c = CHR ''.'' then
            (case parseDigits r of None \<Rightarrow> None | Some (ds, r') \<Rightarrow> Some (c # ds, r'))
          else Some ([], s)
      | [] \<Rightarrow> Some ([], s))"

definition parseExpSign :: "string \<Rightarrow> string \<times> string" where
  "parseExpSign s =
     (case s of c # r \<Rightarrow> if c = CHR ''+'' \<or> c = CHR ''-'' then ([c], r) else ([], s) | [] \<Rightarrow> ([], s))"

definition parseExp :: "string \<Rightarrow> (string \<times> string) option" where
  "parseExp s =
     (case s of
        c # r \<Rightarrow>
          if c = CHR ''e'' \<or> c = CHR ''E'' then
            (case parseExpSign r of
               (es, r1) \<Rightarrow>
                 (case parseDigits r1 of None \<Rightarrow> None | Some (ds, r') \<Rightarrow> Some (c # es @ ds, r')))
          else Some ([], s)
      | [] \<Rightarrow> Some ([], s))"

definition parseNumber :: "string \<Rightarrow> (string \<times> string) option" where
  "parseNumber s =
     (case parseSign s of
        (sign, s1) \<Rightarrow>
          (case parseInt s1 of
             None \<Rightarrow> None
           | Some (ip, s2) \<Rightarrow>
               (case parseFrac s2 of
                  None \<Rightarrow> None
                | Some (fp, s3) \<Rightarrow>
                    (case parseExp s3 of
                       None \<Rightarrow> None
                     | Some (ep, s4) \<Rightarrow> Some (sign @ ip @ fp @ ep, s4)))))"

fun parseValue :: "nat \<Rightarrow> string \<Rightarrow> (json \<times> string) option"
  and parseElements :: "nat \<Rightarrow> json list \<Rightarrow> string \<Rightarrow> (json \<times> string) option"
  and parseMembers :: "nat \<Rightarrow> (string \<times> json) list \<Rightarrow> string \<Rightarrow> (json \<times> string) option"
where
  "parseValue 0 s = None"
| "parseValue (Suc n) s =
     (case s of
        [] \<Rightarrow> None
      | c # r \<Rightarrow>
          if c = CHR 0x22 then
            (case parseStringBody r of None \<Rightarrow> None | Some (str, r') \<Rightarrow> Some (JString str, r'))
          else if c = CHR ''['' then
            (case skipWS r of
               [] \<Rightarrow> None
             | c' # r' \<Rightarrow> if c' = CHR '']'' then Some (JArray [], r') else parseElements n [] (c' # r'))
          else if c = CHR ''{'' then
            (case skipWS r of
               [] \<Rightarrow> None
             | c' # r' \<Rightarrow> if c' = CHR ''}'' then Some (JObject [], r') else parseMembers n [] (c' # r'))
          else if take 4 s = ''true'' then Some (JBool True, drop 4 s)
          else if take 5 s = ''false'' then Some (JBool False, drop 5 s)
          else if take 4 s = ''null'' then Some (JNull, drop 4 s)
          else (case parseNumber s of None \<Rightarrow> None | Some (t, r') \<Rightarrow> Some (JNumber t, r')))"
| "parseElements 0 acc s = None"
| "parseElements (Suc n) acc s =
     (case parseValue n s of
        None \<Rightarrow> None
      | Some (v, r) \<Rightarrow>
          (case skipWS r of
             [] \<Rightarrow> None
           | c # r' \<Rightarrow>
               if c = CHR '','' then parseElements n (acc @ [v]) (skipWS r')
               else if c = CHR '']'' then Some (JArray (acc @ [v]), r')
               else None))"
| "parseMembers 0 acc s = None"
| "parseMembers (Suc n) acc s =
     (case s of
        [] \<Rightarrow> None
      | q # r0 \<Rightarrow>
          if q \<noteq> CHR 0x22 then None
          else
            (case parseStringBody r0 of
               None \<Rightarrow> None
             | Some (k, r1) \<Rightarrow>
                 (case skipWS r1 of
                    [] \<Rightarrow> None
                  | c # r2 \<Rightarrow>
                      if c \<noteq> CHR '':'' then None
                      else
                        (case parseValue n (skipWS r2) of
                           None \<Rightarrow> None
                         | Some (v, r3) \<Rightarrow>
                             (case skipWS r3 of
                                [] \<Rightarrow> None
                              | c' # r4 \<Rightarrow>
                                  if c' = CHR '','' then parseMembers n (acc @ [(k, v)]) (skipWS r4)
                                  else if c' = CHR ''}'' then Some (JObject (acc @ [(k, v)]), r4)
                                  else None)))))"

definition JSON_parse :: "string \<Rightarrow> json option" where
  "JSON_parse s =
     (case parseValue (Suc (length s)) (skipWS s) of
        None \<Rightarrow> None
      | Some (v, r) \<Rightarrow> if skipWS r = [] then Some v else None)"

definition JSON_stringify :: "json \<Rightarrow> string" where
  "JSON_stringify v = serializeJSON [] [] v"

definition JSON_stringify_indent2 :: "json \<Rightarrow> string" where
  "JSON_stringify_indent2 v = serializeJSON ''  '' [] v"

section \<open>HTTP through fetch\<close>

text \<open>
  A \<^verbatim>\<open>Response\<close> of the Fetch API, as far as the code reads it: the status, the status
  text and the body (\<open>None\<close> for a null body, as a 204 or 304 response has).
  \<^verbatim>\<open>response.ok\<close> holds for a status from 200 to 299. The body of a response can be
  read once: \<^verbatim>\<open>json()\<close> and \<^verbatim>\<open>text()\<close> consume it, and a second read rejects with a
  TypeError (Fetch Standard, "consume body": a body that is disturbed is unusable). The
  flag \<open>used\<close> is threaded through the two readers for that reason.
\<close>

record Response =
  resp_status :: nat
  resp_statusText :: string
  resp_body :: "string option"

definition resp_ok :: "Response \<Rightarrow> bool" where
  "resp_ok r \<longleftrightarrow> 200 \<le> resp_status r \<and> resp_status r \<le> 299"

text \<open>
  \<^verbatim>\<open>lib/api-client.ts\<close>: \<^verbatim>\<open>class ApiError extends Error\<close> with
  \<^verbatim>\<open>constructor(message: string, public status?: number, public data?: any)\<close>, which
  calls \<^verbatim>\<open>super(message)\<close>. The first field is the \<^verbatim>\<open>message\<close> property of the error: the
  string that the \<^verbatim>\<open>Error\<close> constructor makes of its argument.
\<close>

datatype JSError =
  ApiError (err_message: string) (err_status: "nat option") (err_data: ApiData)
  | TypeError string
  | SyntaxError string
  | AbortError string
and ApiData = NoData | Cause JSError | Body json

definition errorMessage :: "JSError \<Rightarrow> string option" where
  "errorMessage e =
     (case e of
        ApiError m _ _ \<Rightarrow> Some m
      | TypeError m \<Rightarrow> Some m
      | SyntaxError m \<Rightarrow> Some m
      | AbortError m \<Rightarrow> Some m)"

definition response_json :: "Response \<Rightarrow> bool \<Rightarrow> (JSError + json) \<times> bool" where
  "response_json r used =
     (case resp_body r of
        None \<Rightarrow> (Inl (SyntaxError ''Unexpected end of JSON input''), used)
      | Some b \<Rightarrow>
          if used then (Inl (TypeError ''body stream already read''), used)
          else (case JSON_parse b of
                  None \<Rightarrow> (Inl (SyntaxError ''Unexpected token''), True)
                | Some v \<Rightarrow> (Inr v, True)))"

definition response_text :: "Response \<Rightarrow> bool \<Rightarrow> (JSError + string) \<times> bool" where
  "response_text r used =
     (case resp_body r of
        None \<Rightarrow> (Inr [], used)
      | Some b \<Rightarrow>
          if used then (Inl (TypeError ''body stream already read''), used)
          else (Inr b, True))"

text \<open>
  The network is a parameter: \<open>fetch i\<close> is what the \<open>i\<close>-th call of \<^verbatim>\<open>fetch\<close> (counted
  from 0) does, reject with an error or resolve with a response. \<^verbatim>\<open>RequestOptions\<close>
  extends \<^verbatim>\<open>RequestInit\<close> with \<^verbatim>\<open>params\<close>, \<^verbatim>\<open>retry\<close> and \<^verbatim>\<open>retryDelay\<close>; the retry count
  is a natural number. What a run does is returned as a list of events: each call of
  \<^verbatim>\<open>fetch\<close> and each wait of \<^verbatim>\<open>setTimeout\<close>.
\<close>

datatype FetchOutcome = FetchRejects JSError | FetchResolves Response

record FetchInit =
  init_method :: "string option"
  init_headers :: "(string \<times> string) list"
  init_body :: "string option"

record RequestOptions = FetchInit +
  opt_params :: "(string \<times> string) list option"
  opt_retry :: "nat option"
  opt_retryDelay :: "nat option"

datatype Event = FetchCall string FetchInit | Wait nat

text \<open>
  \<^verbatim>\<open>fetchWithRetry\<close>: the loop
  \<^verbatim>\<open>for (let attempt = 0; attempt <= retry; attempt++) { try { return await fetch(url, fetchOptions) } catch (error) { lastError = error; if (attempt < retry) await wait(retryDelay) } }\<close>
  followed by \<^verbatim>\<open>throw new ApiError(`Network request failed after ${retry + 1} attempts: ${lastError?.message}`, undefined, lastError)\<close>.
\<close>

function fetchLoop ::
  "(nat \<Rightarrow> FetchOutcome) \<Rightarrow> string \<Rightarrow> FetchInit \<Rightarrow> nat \<Rightarrow> nat \<Rightarrow> nat \<Rightarrow> JSError option
     \<Rightarrow> (JSError + Response) \<times> Event list" where
  "fetchLoop fetch url fetchOptions retry retryDelay attempt lastError =
     (if attempt \<le> retry then
        (case fetch attempt of
           FetchResolves response \<Rightarrow> (Inr response, [FetchCall url fetchOptions])
         | FetchRejects error \<Rightarrow>
             (case fetchLoop fetch url fetchOptions retry retryDelay (attempt + 1) (Some error) of
                (result, events) \<Rightarrow>
                  (result,
                   FetchCall url fetchOptions
                   # (if attempt < retry then [Wait retryDelay] else []) @ events)))
      else
        (Inl (ApiError
               (''Network request failed after '' @ numberToString (retry + 1) @ '' attempts: ''
                  @ (case lastError of
                       None \<Rightarrow> ''undefined''
                     | Some e \<Rightarrow> (case errorMessage e of None \<Rightarrow> ''undefined'' | Some m \<Rightarrow> m)))
               None
               (case lastError of None \<Rightarrow> NoData | Some e \<Rightarrow> Cause e)),
         []))"
  by pat_completeness auto
termination
  by (relation "measure (\<lambda>(fetch, url, fo, retry, retryDelay, attempt, lastError). Suc retry - attempt)") auto

definition retryOf :: "RequestOptions \<Rightarrow> nat" where
  "retryOf options = (case opt_retry options of None \<Rightarrow> 0 | Some r \<Rightarrow> r)"

definition retryDelayOf :: "RequestOptions \<Rightarrow> nat" where
  "retryDelayOf options = (case opt_retryDelay options of None \<Rightarrow> 1000 | Some d \<Rightarrow> d)"

definition fetchWithRetry ::
  "(nat \<Rightarrow> FetchOutcome) \<Rightarrow> string \<Rightarrow> RequestOptions \<Rightarrow> (JSError + Response) \<times> Event list" where
  "fetchWithRetry fetch url options =
     fetchLoop fetch url (FetchInit.truncate options) (retryOf options) (retryDelayOf options) 0 None"

declare fetchLoop.simps [simp del]

text \<open>Vocabulary for statements about a run of \<open>fetchWithRetry\<close>.\<close>

fun rejects :: "FetchOutcome \<Rightarrow> bool" where
  "rejects (FetchRejects e) = True"
| "rejects (FetchResolves r) = False"

fun isFetchCall :: "Event \<Rightarrow> bool" where
  "isFetchCall (FetchCall u i) = True"
| "isFetchCall (Wait d) = False"

definition attempts :: "Event list \<Rightarrow> nat" where
  "attempts evs = length (filter isFetchCall evs)"

definition networkFailure :: "nat \<Rightarrow> JSError \<Rightarrow> JSError" where
  "networkFailure retry e =
     ApiError
       (''Network request failed after '' @ numberToString (retry + 1) @ '' attempts: ''
          @ (case errorMessage e of None \<Rightarrow> ''undefined'' | Some m \<Rightarrow> m))
       None (Cause e)"

section \<open>Dataset utilities\<close>

text \<open>
  \<^verbatim>\<open>types/dataset.ts\<close>: the interfaces \<^verbatim>\<open>CSVRow\<close> and \<^verbatim>\<open>Dataset\<close>, and
  \<^verbatim>\<open>type DatasetFormat = "json" | "jsonl" | "csv"\<close>, \<^verbatim>\<open>type ModalMode = "upload" | "create"\<close>.
\<close>

record CSVRow =
  row_instruction :: string
  row_input :: string
  row_output :: string

datatype DatasetFormat = FormatJson | FormatJsonl | FormatCsv

datatype ModalMode = ModeUpload | ModeCreate

record Dataset =
  ds_id :: string
  ds_name :: string
  ds_samples :: nat
  ds_size :: string
  ds_format :: string
  ds_createdAt :: string
  ds_content :: "string option"

definition rowToJSON :: "CSVRow \<Rightarrow> json" where
  "rowToJSON row =
     JObject [(''instruction'', JString (row_instruction row)),
              (''input'', JString (row_input row)),
              (''output'', JString (row_output row))]"

text \<open>\<^verbatim>\<open>s.replace(/"/g, '""')\<close>\<close>

definition doubleQuotes :: "string \<Rightarrow> string" where
  "doubleQuotes s = concat (map (\<lambda>c. if c = CHR 0x22 then [CHR 0x22, CHR 0x22] else [c]) s)"

definition csvLine :: "CSVRow \<Rightarrow> string" where
  "csvLine row =
     [CHR 0x22] @ doubleQuotes (row_instruction row) @ [CHR 0x22] @ '','' @
     [CHR 0x22] @ doubleQuotes (row_input row) @ [CHR 0x22] @ '','' @
     [CHR 0x22] @ doubleQuotes (row_output row) @ [CHR 0x22]"

text \<open>
  \<^verbatim>\<open>convertRowsToFormat(rows, format)\<close>: \<^verbatim>\<open>JSON.stringify(rows, null, 2)\<close> for json, the
  rows stringified one per line for jsonl, the header and the quoted rows for csv.
\<close>

definition convertRowsToFormat :: "CSVRow list \<Rightarrow> DatasetFormat \<Rightarrow> string" where
  "convertRowsToFormat rows format =
     (case format of
        FormatJson \<Rightarrow> JSON_stringify_indent2 (JArray (map rowToJSON rows))
      | FormatJsonl \<Rightarrow> join [CHR 0x0A] (map (\<lambda>row. JSON_stringify (rowToJSON row)) rows)
      | FormatCsv \<Rightarrow> join [CHR 0x0A] (''instruction,input,output'' # map csvLine rows))"

text \<open>
  A \<^verbatim>\<open>File\<close>: its name, its size in bytes and the text \<^verbatim>\<open>FileReader.readAsText\<close> reads
  from it; \<open>None\<close> when the read fails, in which case \<^verbatim>\<open>onload\<close> never fires. The promise
  \<^verbatim>\<open>parseFileForSampleCount\<close> returns is settled by \<^verbatim>\<open>resolve\<close> in \<^verbatim>\<open>onload\<close> only.
\<close>

record File =
  file_name :: string
  file_size :: nat
  file_text :: "string option"

datatype 'a Promise = Resolves 'a | RejectsWith JSError | NeverSettles

text \<open>\<^verbatim>\<open>file.name.split(".").pop()?.toLowerCase()\<close>\<close>

definition fileExtension :: "string \<Rightarrow> string option" where
  "fileExtension name =
     (case rev (split (CHR ''.'') name) of [] \<Rightarrow> None | x # _ \<Rightarrow> Some (toLowerCase x))"

text \<open>
  The body of \<^verbatim>\<open>reader.onload\<close>: the count starts at 0, the three branches are inside
  \<^verbatim>\<open>try\<close>, and the \<^verbatim>\<open>catch\<close> sets the count to 0 (only \<^verbatim>\<open>JSON.parse\<close> can throw).
\<close>

definition sampleCount :: "string \<Rightarrow> string \<Rightarrow> nat" where
  "sampleCount name content =
     (let ext = fileExtension name in
      if ext = Some ''json'' then
        (case JSON_parse content of
           None \<Rightarrow> 0
         | Some data \<Rightarrow> (case data of JArray xs \<Rightarrow> length xs | _ \<Rightarrow> 1))
      else if ext = Some ''jsonl'' then
        length (filter (\<lambda>line. trim line \<noteq> []) (split (CHR 0x0A) (trim content)))
      else if ext = Some ''csv'' then
        nat (max 0 (int (length (split (CHR 0x0A) (trim content))) - 1))
      else 0)"

definition parseFileForSampleCount :: "File \<Rightarrow> nat Promise" where
  "parseFileForSampleCount file =
     (case file_text file of
        None \<Rightarrow> NeverSettles
      | Some content \<Rightarrow> Resolves (sampleCount (file_name file) content))"

text \<open>
  \<^verbatim>\<open>formatFileSize(bytes)\<close>. \<^verbatim>\<open>(bytes / 1024).toFixed(2)\<close> rounds the quotient to the
  nearest hundredth, the larger one at a tie; the quotient by a power of two is exact in
  floating point, so the rounding is the integer rounding below.
\<close>

definition toFixed2 :: "nat \<Rightarrow> nat \<Rightarrow> string" where
  "toFixed2 num den =
     (let n = (200 * num + den) div (2 * den) in
      numberToString (n div 100) @ ''.'' @ [digitChar (n mod 100 div 10), digitChar (n mod 10)])"

definition formatFileSize :: "nat \<Rightarrow> string" where
  "formatFileSize bytes =
     (if bytes < 1024 then numberToString bytes @ '' B''
      else if bytes < 1024 * 1024 then toFixed2 bytes 1024 @ '' KB''
      else toFixed2 bytes (1024 * 1024) @ '' MB'')"

text \<open>\<^verbatim>\<open>new Blob([content]).size\<close>: the length of the UTF-8 encoding.\<close>

definition blobSize :: "string \<Rightarrow> nat" where
  "blobSize content = sum_list (map (\<lambda>c. if (of_char c :: nat) < 128 then 1 else 2) content)"

text \<open>\<^verbatim>\<open>name.replace(/\.[^/.]+$/, "")\<close>: drops a last extension that is not empty and has no slash.\<close>

definition stripExtension :: "string \<Rightarrow> string" where
  "stripExtension name =
     (case rev (split (CHR ''.'') name) of
        ext # part # parts \<Rightarrow>
          if ext \<noteq> [] \<and> CHR ''/'' \<notin> set ext then join ''.'' (rev (part # parts)) else name
      | _ \<Rightarrow> name)"

text \<open>\<^verbatim>\<open>name.split(".").pop()?.toUpperCase() || "UNKNOWN"\<close>\<close>

definition uploadFormat :: "string \<Rightarrow> string" where
  "uploadFormat name =
     (case rev (split (CHR ''.'') name) of
        [] \<Rightarrow> ''UNKNOWN''
      | x # _ \<Rightarrow> if x = [] then ''UNKNOWN'' else toUpperCase x)"

definition formatName :: "DatasetFormat \<Rightarrow> string" where
  "formatName format =
     (case format of FormatJson \<Rightarrow> ''json'' | FormatJsonl \<Rightarrow> ''jsonl'' | FormatCsv \<Rightarrow> ''csv'')"

text \<open>
  \<^verbatim>\<open>handleSaveDataset\<close> of the datasets page. The state of the page it reads and the two
  clock readings (\<^verbatim>\<open>Date.now()\<close> and the date part of \<^verbatim>\<open>new Date().toISOString()\<close>) are
  arguments. The result is the \<^verbatim>\<open>newDataset\<close> whose JSON is posted to
  \<^verbatim>\<open>${API_URL}/datasets\<close>, or \<open>None\<close> when nothing is posted: neither branch applies, or
  the \<^verbatim>\<open>await\<close> of \<^verbatim>\<open>parseFileForSampleCount\<close> never returns.
\<close>

record SaveState =
  modalMode :: ModalMode
  datasetName :: string
  selectedFormat :: DatasetFormat
  csvRows :: "CSVRow list"
  uploadedFile :: "File option"

definition handleSaveDataset :: "nat \<Rightarrow> string \<Rightarrow> SaveState \<Rightarrow> Dataset option" where
  "handleSaveDataset now today st =
     (if modalMode st = ModeCreate \<and> datasetName st \<noteq> [] then
        (let content = convertRowsToFormat (csvRows st) (selectedFormat st);
             size = blobSize content
         in Some \<lparr>ds_id = ''ds-'' @ numberToString now,
                  ds_name = datasetName st,
                  ds_samples = length (csvRows st),
                  ds_size = formatFileSize size,
                  ds_format = toUpperCase (formatName (selectedFormat st)),
                  ds_createdAt = today,
                  ds_content = Some content\<rparr>)
      else
        (case uploadedFile st of
           None \<Rightarrow> None
         | Some file \<Rightarrow>
             if modalMode st = ModeUpload then
               (case parseFileForSampleCount file of
                  Resolves samples \<Rightarrow>
                    Some \<lparr>ds_id = ''ds-'' @ numberToString now,
                          ds_name = stripExtension (file_name file),
                          ds_samples = samples,
                          ds_size = formatFileSize (file_size file),
                          ds_format = uploadFormat (file_name file),
                          ds_createdAt = today,
                          ds_content = None\<rparr>
                | _ \<Rightarrow> None)
             else None))"

text \<open>
  Vocabulary for statements about lines: a string is blank when all of its characters
  are white space for \<^verbatim>\<open>trim\<close>, and \<open>countChar c s\<close> counts the occurrences of \<open>c\<close>.
\<close>

definition blank :: "string \<Rightarrow> bool" where
  "blank s \<longleftrightarrow> list_all isJSWhitespace s"

definition countChar :: "char \<Rightarrow> string \<Rightarrow> nat" where
  "countChar c s = length (filter (\<lambda>x. x = c) s)"

section \<open>The jobs list page\<close>

text \<open>
  What a handler of a page does is returned as the list of its effects, in order:
  requests through \<^verbatim>\<open>fetch\<close>, dialogs, console messages, navigation, clicks on a
  download link (its \<^verbatim>\<open>href\<close> and its \<^verbatim>\<open>download\<close> attribute, the file name) and the
  updates of the page's state.
\<close>

datatype Effect =
  Request string FetchInit
  | Confirm string
  | Alert string
  | ConsoleError string
  | Navigate string
  | ClickLink string string
  | SetLoading bool
  | SetJobs "FineTuningJob list"

text \<open>
  The answer to one request, as the handler that awaits it sees it: \<^verbatim>\<open>fetch\<close> rejects;
  or the response is not ok, and reading its body the way the handler does gives \<open>Some\<close>
  value or throws (\<open>None\<close>); or the response is ok, likewise.
\<close>

datatype ('e, 'a) Reply = Rejected | NotOk "'e option" | Ok "'a option"

definition getRequest :: "string \<Rightarrow> Effect" where
  "getRequest url = Request url \<lparr>init_method = None, init_headers = [], init_body = None\<rparr>"

definition postJSON :: "string \<Rightarrow> json \<Rightarrow> Effect" where
  "postJSON url data =
     Request url \<lparr>init_method = Some ''POST'',
                  init_headers = [(''Content-Type'', ''application/json'')],
                  init_body = Some (JSON_stringify data)\<rparr>"

text \<open>
  \<^verbatim>\<open>fetchJobs\<close>: \<^verbatim>\<open>setJobs(jobsData.jobs || [])\<close> when the response is ok; the payload of
  the reply is \<^verbatim>\<open>jobsData.jobs\<close>, \<open>None\<close> when it is missing. Nothing is read from a
  response that is not ok.
\<close>

definition fetchJobs :: "string \<Rightarrow> (unit, FineTuningJob list option) Reply \<Rightarrow> Effect list" where
  "fetchJobs API_URL reply =
     [SetLoading True, getRequest (API_URL @ ''/jobs'')]
     @ (case reply of
          Rejected \<Rightarrow> [ConsoleError ''Error fetching jobs:'']
        | NotOk _ \<Rightarrow> []
        | Ok None \<Rightarrow> [ConsoleError ''Error fetching jobs:'']
        | Ok (Some jobs) \<Rightarrow> [SetJobs (case jobs of None \<Rightarrow> [] | Some js \<Rightarrow> js)])
     @ [SetLoading False]"

text \<open>
  \<^verbatim>\<open>handleRetry\<close>. \<open>confirmed\<close> is the answer to \<^verbatim>\<open>window.confirm\<close>. The body posted is
  \<^verbatim>\<open>JSON.stringify({name: `${job.name} (Retry)`, model: job.model, dataset: job.dataset})\<close>.
  The payload of a reply that is not ok is \<^verbatim>\<open>error.detail\<close>, \<open>None\<close> when it is missing or
  empty; the body of an ok reply is not read.
\<close>

definition newJobData :: "FineTuningJob \<Rightarrow> json" where
  "newJobData job =
     JObject [(''name'', JString (job_name job @ '' (Retry)'')),
              (''model'', JString (job_model job)),
              (''dataset'', JString (job_dataset job))]"

definition handleRetry ::
  "string \<Rightarrow> FineTuningJob \<Rightarrow> bool \<Rightarrow> (string option, unit) Reply
     \<Rightarrow> (unit, FineTuningJob list option) Reply \<Rightarrow> Effect list" where
  "handleRetry API_URL job confirmed reply jobsReply =
     Confirm ''Create a new training job with the same configuration?''
     # (if \<not> confirmed then []
        else postJSON (API_URL @ ''/jobs'') (newJobData job)
          # (case reply of
               Rejected \<Rightarrow>
                 [ConsoleError ''Error retrying job:'', Alert ''Failed to retry job. Please try again.'']
             | Ok _ \<Rightarrow>
                 fetchJobs API_URL jobsReply @ [Alert ''New training job created successfully'']
             | NotOk None \<Rightarrow>
                 [ConsoleError ''Error retrying job:'', Alert ''Failed to retry job. Please try again.'']
             | NotOk (Some detail) \<Rightarrow>
                 [Alert (''Failed to create retry job: ''
                    @ (case detail of None \<Rightarrow> ''Unknown error'' | Some d \<Rightarrow> d))]))"

text \<open>
  A checkpoint as the pages declare it. \<^verbatim>\<open>epoch\<close> and \<^verbatim>\<open>step\<close> are counts; \<^verbatim>\<open>loss\<close> and
  \<^verbatim>\<open>file_size_mb\<close> are fractional numbers that no handler computes with, carried as the
  text of their literals.
\<close>

record Checkpoint =
  cp_id :: string
  cp_epoch :: nat
  cp_step :: nat
  cp_loss :: string
  cp_timestamp :: string
  cp_file_path :: string
  cp_file_size_mb :: string

text \<open>
  \<^verbatim>\<open>handleDownload\<close> of the jobs list. The payload of an ok reply is
  \<^verbatim>\<open>data.checkpoints\<close>, \<open>None\<close> when it is missing; a reply that is not ok makes the
  handler throw. The last checkpoint is downloaded through a link whose \<^verbatim>\<open>download\<close>
  attribute is \<^verbatim>\<open>`${job.id}-checkpoint-${lastCheckpoint.step}.json`\<close>.
\<close>

definition handleDownload ::
  "string \<Rightarrow> FineTuningJob \<Rightarrow> (unit, Checkpoint list option) Reply \<Rightarrow> Effect list" where
  "handleDownload API_URL job reply =
     getRequest (API_URL @ ''/jobs/'' @ job_id job @ ''/checkpoints'')
     # (case reply of
          Ok (Some (Some (c # cs))) \<Rightarrow>
            (let lastCheckpoint = last (c # cs);
                 downloadUrl = API_URL @ ''/jobs/'' @ job_id job @ ''/checkpoints/''
                               @ cp_id lastCheckpoint @ ''/download''
             in [ClickLink downloadUrl
                   (job_id job @ ''-checkpoint-'' @ numberToString (cp_step lastCheckpoint) @ ''.json'')])
        | Ok (Some _) \<Rightarrow> [Alert ''No checkpoints available for download'']
        | _ \<Rightarrow> [ConsoleError ''Error downloading model:'',
                Alert ''Failed to download model. Please try again.''])"

section \<open>The job detail page\<close>

text \<open>
  \<^verbatim>\<open>JobDetailPage\<close>: \<^verbatim>\<open>jobId\<close> comes from the route, \<^verbatim>\<open>jobInfo\<close> is \<^verbatim>\<open>null\<close> until the first
  answer of \<^verbatim>\<open>/jobs/{id}/info\<close> arrives.
  \<^verbatim>\<open>handleDownloadCheckpoint(checkpointId, step)\<close> fetches the checkpoint as a blob and
  saves it under \<^verbatim>\<open>`${jobInfo?.name || jobId}-checkpoint-${step}.json`\<close>; \<open>blobUrl\<close> is what
  \<^verbatim>\<open>URL.createObjectURL\<close> returns.
\<close>

record JobInfo =
  info_id :: string
  info_name :: string
  info_model :: string
  info_dataset :: string
  info_status :: JobStatus

definition downloadBaseName :: "JobInfo option \<Rightarrow> string \<Rightarrow> string" where
  "downloadBaseName jobInfo jobId =
     (case jobInfo of
        None \<Rightarrow> jobId
      | Some info \<Rightarrow> if info_name info \<noteq> [] then info_name info else jobId)"

definition handleDownloadCheckpoint ::
  "string \<Rightarrow> string \<Rightarrow> JobInfo option \<Rightarrow> string \<Rightarrow> string \<Rightarrow> nat \<Rightarrow> (unit, unit) Reply
     \<Rightarrow> Effect list" where
  "handleDownloadCheckpoint API_URL blobUrl jobInfo jobId checkpointId step reply =
     getRequest (API_URL @ ''/jobs/'' @ jobId @ ''/checkpoints/'' @ checkpointId @ ''/download'')
     # (case reply of
          Ok (Some _) \<Rightarrow>
            [ClickLink blobUrl
               (downloadBaseName jobInfo jobId @ ''-checkpoint-'' @ numberToString step @ ''.json'')]
        | _ \<Rightarrow> [ConsoleError ''Error downloading checkpoint:'',
                Alert ''Failed to download checkpoint. Please try again.''])"

text \<open>Vocabulary for statements about effects.\<close>

fun savedAs :: "Effect \<Rightarrow> string option" where
  "savedAs (ClickLink href name) = Some name"
| "savedAs _ = None"

fun requestOf :: "Effect \<Rightarrow> (string \<times> FetchInit) option" where
  "requestOf (Request url init) = Some (url, init)"
| "requestOf _ = None"

definition requests :: "Effect list \<Rightarrow> (string \<times> FetchInit) list" where
  "requests effects = List.map_filter requestOf effects"

definition fileNames :: "Effect list \<Rightarrow> string list" where
  "fileNames effects = List.map_filter savedAs effects"

text \<open>
  A request mutates a job when its method is not \<^verbatim>\<open>GET\<close> and its address is that of the
  job, \<^verbatim>\<open>${API_URL}/jobs/${id}\<close>, or lies below it.
\<close>

definition mutatesJob :: "string \<Rightarrow> string \<Rightarrow> string \<times> FetchInit \<Rightarrow> bool" where
  "mutatesJob API_URL jobId req =
     (case req of
        (url, init) \<Rightarrow>
          init_method init \<noteq> None \<and> init_method init \<noteq> Some ''GET''
          \<and> take (length (API_URL @ ''/jobs/'' @ jobId)) url = API_URL @ ''/jobs/'' @ jobId)"

section \<open>The API client\<close>

text \<open>
  Values of the JavaScript runtime as far as \<^verbatim>\<open>apiRequest\<close> needs them: a parsed JSON
  value, or \<^verbatim>\<open>undefined\<close> (\<open>None\<close>). \<open>optionalProp v k\<close> is \<^verbatim>\<open>v?.k\<close> for a key \<open>k\<close> that no
  prototype defines (\<^verbatim>\<open>detail\<close>, \<^verbatim>\<open>message\<close>): the property of an object, the last one when
  the JSON text repeats the key, and \<^verbatim>\<open>undefined\<close> for \<^verbatim>\<open>null\<close>, for a missing key and
  for every value that is not an object. \<open>truthy\<close> is the runtime's ToBoolean; a number
  is read as zero when its literal has only zero digits before the exponent (a literal
  whose value underflows to zero is outside the model). \<open>orElse a b\<close> is \<^verbatim>\<open>a || b\<close>.
\<close>

definition optionalProp :: "json \<Rightarrow> string \<Rightarrow> json option" where
  "optionalProp v k = (case v of JObject kvs \<Rightarrow> map_of (rev kvs) k | _ \<Rightarrow> None)"

definition zeroLiteral :: "string \<Rightarrow> bool" where
  "zeroLiteral t \<longleftrightarrow>
     list_all (\<lambda>c. c = CHR ''0'' \<or> c = CHR ''.'' \<or> c = CHR ''-'')
       (takeWhile (\<lambda>c. c \<noteq> CHR ''e'' \<and> c \<noteq> CHR ''E'') t)"

fun truthy :: "json option \<Rightarrow> bool" where
  "truthy None = False"
| "truthy (Some JNull) = False"
| "truthy (Some (JBool b)) = b"
| "truthy (Some (JNumber t)) = (\<not> zeroLiteral t)"
| "truthy (Some (JString s)) = (s \<noteq> [])"
| "truthy (Some (JArray xs)) = True"
| "truthy (Some (JObject kvs)) = True"

definition orElse :: "json option \<Rightarrow> json option \<Rightarrow> json option" where
  "orElse a b = (if truthy a then a else b)"

text \<open>
  The runtime's ToString, which the \<^verbatim>\<open>Error\<close> constructor applies to the message it is
  given. A string is kept, \<^verbatim>\<open>null\<close>, \<^verbatim>\<open>true\<close> and \<^verbatim>\<open>false\<close> give their names, an array gives
  the conversions of its elements joined by commas (\<^verbatim>\<open>Array.prototype.join\<close>, in which a
  \<^verbatim>\<open>null\<close> element gives the empty string), and an object gives \<^verbatim>\<open>[object Object]\<close> through
  \<^verbatim>\<open>Object.prototype.toString\<close>, unless the JSON text gave it a property \<^verbatim>\<open>toString\<close> of its
  own: that value is not callable, \<^verbatim>\<open>valueOf\<close> does not return a primitive either, and the
  conversion throws a TypeError (\<open>None\<close>).

  A number is rendered by Number::toString of ECMA-262 from the decimal digits and the
  decimal exponent of its literal: the literal stands for \<open>0.d\<^sub>1\<dots>d\<^sub>k \<times> 10\<^sup>n\<close> with \<open>d\<^sub>1\<close>
  and \<open>d\<^sub>k\<close> not zero, and the text is plain digits for \<open>k \<le> n \<le> 21\<close>, digits with a point
  for \<open>0 < n \<le> 21\<close>, \<^verbatim>\<open>0.\<close> and zeros and the digits for \<open>-6 < n \<le> 0\<close>, and the exponent
  form otherwise. The digits of the literal are the digits the runtime prints as long
  as the 64-bit float nearest to the literal has no shorter decimal, which is the case
  for at most 15 significant digits within the range of normal floats; \<open>exactLiteral\<close>
  says so of a literal, and \<open>exactNumbers\<close> of the numbers that the conversion of a value
  reads.
\<close>

definition digitsToNat :: "string \<Rightarrow> nat" where
  "digitsToNat ds = foldl (\<lambda>a c. 10 * a + ((of_char c :: nat) - 48)) 0 ds"

definition stripZeros :: "string \<Rightarrow> string" where
  "stripZeros ds = rev (dropWhile (\<lambda>c. c = CHR ''0'') (rev (dropWhile (\<lambda>c. c = CHR ''0'') ds)))"

record Decimal =
  dec_negative :: bool
  dec_digits :: string
  dec_point :: int

definition decimalOf :: "string \<Rightarrow> Decimal" where
  "decimalOf t =
     (let negative = (take 1 t = ''-'');
          body = (if negative then drop 1 t else t);
          ip = takeWhile isDigit body;
          r1 = dropWhile isDigit body;
          fp = (if take 1 r1 = ''.'' then takeWhile isDigit (drop 1 r1) else []);
          r2 = (if take 1 r1 = ''.'' then dropWhile isDigit (drop 1 r1) else r1);
          r3 = drop 1 r2;
          e = (if take 1 r2 = ''e'' \<or> take 1 r2 = ''E'' then
                 (if take 1 r3 = ''-'' then - int (digitsToNat (drop 1 r3))
                  else if take 1 r3 = ''+'' then int (digitsToNat (drop 1 r3))
                  else int (digitsToNat r3))
               else 0)
      in \<lparr>dec_negative = negative,
          dec_digits = stripZeros (ip @ fp),
          dec_point = int (length ip) - int (length (takeWhile (\<lambda>c. c = CHR ''0'') (ip @ fp))) + e\<rparr>)"

definition renderDecimal :: "string \<Rightarrow> int \<Rightarrow> string" where
  "renderDecimal s n =
     (let k = int (length s) in
      if k \<le> n \<and> n \<le> 21 then s @ replicate (nat (n - k)) (CHR ''0'')
      else if 0 < n \<and> n \<le> 21 then take (nat n) s @ ''.'' @ drop (nat n) s
      else if - 6 < n \<and> n \<le> 0 then ''0.'' @ replicate (nat (- n)) (CHR ''0'') @ s
      else (let e = (if n - 1 < 0 then ''-'' else ''+'') @ numberToString (nat \<bar>n - 1\<bar>)
            in if k = 1 then s @ ''e'' @ e else take 1 s @ ''.'' @ drop 1 s @ ''e'' @ e))"

definition numberLiteralToString :: "string \<Rightarrow> string" where
  "numberLiteralToString t =
     (let d = decimalOf t in
      if dec_digits d = [] then ''0''
      else (if dec_negative d then ''-'' else []) @ renderDecimal (dec_digits d) (dec_point d))"


fun toStringJS :: "json \<Rightarrow> string option"
  and elementsToString :: "json list \<Rightarrow> string list option" where
  "toStringJS JNull = Some ''null''"
| "toStringJS (JBool b) = Some (if b then ''true'' else ''false'')"
| "toStringJS (JNumber t) = Some (numberLiteralToString t)"
| "toStringJS (JString s) = Some s"
| "toStringJS (JArray xs) = map_option (join '','') (elementsToString xs)"
| "toStringJS (JObject kvs) =
     (if ''toString'' \<in> set (map fst kvs) then None else Some ''[object Object]'')"
| "elementsToString [] = Some []"
| "elementsToString (x # xs) =
     (case (if x = JNull then Some [] else toStringJS x) of
        None \<Rightarrow> None
      | Some s \<Rightarrow> (case elementsToString xs of None \<Rightarrow> None | Some ss \<Rightarrow> Some (s # ss)))"


text \<open>
  \<^verbatim>\<open>new URLSearchParams(params).toString()\<close>: the application/x-www-form-urlencoded
  serializer over the UTF-8 bytes of each name and value.
\<close>

definition upperHexDigit :: "nat \<Rightarrow> char" where
  "upperHexDigit d = ''0123456789ABCDEF'' ! (d mod 16)"

definition percentEncodeByte :: "nat \<Rightarrow> string" where
  "percentEncodeByte n = [CHR ''%'', upperHexDigit (n div 16), upperHexDigit (n mod 16)]"

definition formEncodeChar :: "char \<Rightarrow> string" where
  "formEncodeChar c =
     (let n = (of_char c :: nat) in
      if c = CHR '' '' then ''+''
      else if (48 \<le> n \<and> n \<le> 57) \<or> (65 \<le> n \<and> n \<le> 90) \<or> (97 \<le> n \<and> n \<le> 122)
              \<or> c = CHR ''*'' \<or> c = CHR ''-'' \<or> c = CHR ''.'' \<or> c = CHR ''_'' then [c]
      else if n < 128 then percentEncodeByte n
      else percentEncodeByte (192 + n div 64) @ percentEncodeByte (128 + n mod 64))"

definition searchParamsToString :: "(string \<times> string) list \<Rightarrow> string" where
  "searchParamsToString params =
     join ''&'' (map (\<lambda>(k, v). concat (map formEncodeChar k) @ ''='' @ concat (map formEncodeChar v)) params)"

text \<open>
  \<^verbatim>\<open>{ "Content-Type": "application/json", ...fetchOptions.headers }\<close>: a later key
  replaces the value of an earlier one in place, a new key is appended.
\<close>

fun setProp :: "string \<Rightarrow> string \<Rightarrow> (string \<times> string) list \<Rightarrow> (string \<times> string) list" where
  "setProp k v [] = [(k, v)]"
| "setProp k v ((k', v') # kvs) = (if k = k' then (k, v) # kvs else (k', v') # setProp k v kvs)"

definition spread :: "(string \<times> string) list \<Rightarrow> (string \<times> string) list \<Rightarrow> (string \<times> string) list" where
  "spread base extra = foldl (\<lambda>acc (k, v). setProp k v acc) base extra"

text \<open>
  \<^verbatim>\<open>apiRequest(endpoint, options)\<close>. The error thrown for a response that is not ok is
  \<^verbatim>\<open>new ApiError(errorData?.detail || errorData?.message || `HTTP ${response.status}: ${response.statusText}`, response.status, errorData)\<close>
  where \<^verbatim>\<open>errorData\<close> is \<^verbatim>\<open>await response.json()\<close> or, when that throws,
  \<^verbatim>\<open>await response.text()\<close>, a second read of the same body. The constructor hands the
  chosen value to \<^verbatim>\<open>super(message)\<close>, which converts it to a string; where that conversion
  throws, its TypeError is what \<^verbatim>\<open>apiRequest\<close> throws. An ok response returns
  \<^verbatim>\<open>await response.json()\<close> or, when that throws, \<^verbatim>\<open>{}\<close>.
\<close>

definition httpErrorText :: "Response \<Rightarrow> string" where
  "httpErrorText response =
     ''HTTP '' @ numberToString (resp_status response) @ '': '' @ resp_statusText response"

definition chosenMessage :: "json \<Rightarrow> Response \<Rightarrow> json" where
  "chosenMessage errorData response =
     (case orElse (optionalProp errorData ''detail'')
             (orElse (optionalProp errorData ''message'') (Some (JString (httpErrorText response)))) of
        None \<Rightarrow> JString (httpErrorText response)
      | Some m \<Rightarrow> m)"

definition apiErrorOf :: "json \<Rightarrow> Response \<Rightarrow> JSError" where
  "apiErrorOf errorData response =
     (case toStringJS (chosenMessage errorData response) of
        None \<Rightarrow> TypeError ''Cannot convert object to primitive value''
      | Some message \<Rightarrow> ApiError message (Some (resp_status response)) (Body errorData))"

definition requestUrl :: "string \<Rightarrow> string \<Rightarrow> RequestOptions \<Rightarrow> string" where
  "requestUrl API_URL endpoint options =
     API_URL @ endpoint
     @ (case opt_params options of None \<Rightarrow> [] | Some params \<Rightarrow> ''?'' @ searchParamsToString params)"

definition requestOptions :: "RequestOptions \<Rightarrow> RequestOptions" where
  "requestOptions options =
     options\<lparr>init_headers := spread [(''Content-Type'', ''application/json'')] (init_headers options),
             opt_params := None\<rparr>"

definition apiRequest ::
  "(nat \<Rightarrow> FetchOutcome) \<Rightarrow> string \<Rightarrow> string \<Rightarrow> RequestOptions \<Rightarrow> (JSError + json) \<times> Event list" where
  "apiRequest fetch API_URL endpoint options =
     (case fetchWithRetry fetch (requestUrl API_URL endpoint options) (requestOptions options) of
        (Inl error, events) \<Rightarrow> (Inl error, events)
      | (Inr response, events) \<Rightarrow>
          if \<not> resp_ok response then
            (case response_json response False of
               (Inr errorData, used) \<Rightarrow> (Inl (apiErrorOf errorData response), events)
             | (Inl _, used) \<Rightarrow>
                 (case response_text response used of
                    (Inr errorData, _) \<Rightarrow> (Inl (apiErrorOf (JString errorData) response), events)
                  | (Inl error, _) \<Rightarrow> (Inl error, events)))
          else
            (case response_json response False of
               (Inr data, _) \<Rightarrow> (Inr data, events)
             | (Inl _, _) \<Rightarrow> (Inr (JObject []), events)))"

section \<open>Polling\<close>

subsection \<open>The polling effect of the job detail page\<close>

text \<open>
  The state of \<^verbatim>\<open>JobDetailPage\<close> that its polling depends on: \<^verbatim>\<open>isTraining\<close>
  (\<^verbatim>\<open>useState(true)\<close>), \<^verbatim>\<open>jobInfo\<close> (\<^verbatim>\<open>useState(null)\<close>) and the interval the effect has
  installed, kept as its period and the value of \<^verbatim>\<open>isTraining\<close> its callback has captured.
  The effect has the dependencies \<^verbatim>\<open>[jobId, isTraining]\<close>: it runs on mount, and again,
  after its cleanup has cleared the old interval, whenever \<^verbatim>\<open>isTraining\<close> changes. Each run
  calls \<^verbatim>\<open>fetchJobInfo\<close>, \<^verbatim>\<open>fetchLossData\<close>, \<^verbatim>\<open>fetchLogs\<close> and \<^verbatim>\<open>fetchCheckpoints\<close> and then
  \<^verbatim>\<open>setInterval(() => { if (isTraining) { fetchLossData(); fetchLogs(); } }, 3000)\<close>.
  \<^verbatim>\<open>fetchJobInfo\<close> is the only writer of \<^verbatim>\<open>isTraining\<close>:
  \<^verbatim>\<open>setIsTraining(data.status === "running")\<close>, when its response is ok.
\<close>

record PageState =
  page_isTraining :: bool
  page_jobInfo :: "JobInfo option"
  page_timer :: "(nat \<times> bool) option"

definition initialPage :: PageState where
  "initialPage = \<lparr>page_isTraining = True, page_jobInfo = None, page_timer = None\<rparr>"

datatype PageInput = Mount | InfoArrives "JobInfo option" | Tick

definition effectFetches :: "string \<Rightarrow> string \<Rightarrow> Effect list" where
  "effectFetches API_URL jobId =
     [getRequest (API_URL @ ''/jobs/'' @ jobId @ ''/info''),
      getRequest (API_URL @ ''/jobs/'' @ jobId @ ''/metrics''),
      getRequest (API_URL @ ''/jobs/'' @ jobId @ ''/logs''),
      getRequest (API_URL @ ''/jobs/'' @ jobId @ ''/checkpoints'')]"

definition tickFetches :: "string \<Rightarrow> string \<Rightarrow> bool \<Rightarrow> Effect list" where
  "tickFetches API_URL jobId isTraining =
     (if isTraining then
        [getRequest (API_URL @ ''/jobs/'' @ jobId @ ''/metrics''),
         getRequest (API_URL @ ''/jobs/'' @ jobId @ ''/logs'')]
      else [])"

definition runEffect :: "string \<Rightarrow> string \<Rightarrow> PageState \<Rightarrow> PageState \<times> Effect list" where
  "runEffect API_URL jobId st =
     (st\<lparr>page_timer := Some (3000, page_isTraining st)\<rparr>, effectFetches API_URL jobId)"

text \<open>
  One step of the page: the mount, the arrival of the answer to \<^verbatim>\<open>fetchJobInfo\<close> (\<open>None\<close>
  when the request failed or the response was not ok, in which case nothing is set), or
  a tick of the interval.
\<close>

definition pageStep :: "string \<Rightarrow> string \<Rightarrow> PageState \<Rightarrow> PageInput \<Rightarrow> PageState \<times> Effect list" where
  "pageStep API_URL jobId st inp =
     (case inp of
        Mount \<Rightarrow> runEffect API_URL jobId st
      | InfoArrives None \<Rightarrow> (st, [])
      | InfoArrives (Some data) \<Rightarrow>
          (let st' = st\<lparr>page_jobInfo := Some data, page_isTraining := (info_status data = Running)\<rparr>
           in if page_isTraining st' \<noteq> page_isTraining st then runEffect API_URL jobId st'
              else (st', []))
      | Tick \<Rightarrow>
          (st, case page_timer st of
                 None \<Rightarrow> []
               | Some (period, isTraining) \<Rightarrow> tickFetches API_URL jobId isTraining))"

fun pageRun :: "string \<Rightarrow> string \<Rightarrow> PageState \<Rightarrow> PageInput list \<Rightarrow> PageState" where
  "pageRun API_URL jobId st [] = st"
| "pageRun API_URL jobId st (inp # inps) = pageRun API_URL jobId (fst (pageStep API_URL jobId st inp)) inps"

text \<open>
  The page together with the job on the server. The status of the job changes on the
  server without the page taking part; an answer to \<^verbatim>\<open>fetchJobInfo\<close> carries the status
  the job has when the answer is made.
\<close>

record World =
  world_job :: JobInfo
  world_page :: PageState

datatype WorldEvent = PageMounts | InfoAnswered bool | TimerFires | StatusBecomes JobStatus

definition worldStep :: "string \<Rightarrow> World \<Rightarrow> WorldEvent \<Rightarrow> World \<times> Effect list" where
  "worldStep API_URL w ev =
     (case ev of
        StatusBecomes s \<Rightarrow> (w\<lparr>world_job := (world_job w)\<lparr>info_status := s\<rparr>\<rparr>, [])
      | PageMounts \<Rightarrow>
          (case pageStep API_URL (info_id (world_job w)) (world_page w) Mount of
             (p, effects) \<Rightarrow> (w\<lparr>world_page := p\<rparr>, effects))
      | InfoAnswered ok \<Rightarrow>
          (case pageStep API_URL (info_id (world_job w)) (world_page w)
                  (InfoArrives (if ok then Some (world_job w) else None)) of
             (p, effects) \<Rightarrow> (w\<lparr>world_page := p\<rparr>, effects))
      | TimerFires \<Rightarrow>
          (case pageStep API_URL (info_id (world_job w)) (world_page w) Tick of
             (p, effects) \<Rightarrow> (w\<lparr>world_page := p\<rparr>, effects)))"

fun worldRun :: "string \<Rightarrow> World \<Rightarrow> WorldEvent list \<Rightarrow> World" where
  "worldRun API_URL w [] = w"
| "worldRun API_URL w (ev # evs) = worldRun API_URL (fst (worldStep API_URL w ev)) evs"

subsection \<open>The hook \<open>useApiPolling\<close>\<close>

text \<open>
  \<^verbatim>\<open>useApiPolling(apiFunction, interval = 3000, options = {})\<close> with
  \<^verbatim>\<open>const { enabled = true, ...apiOptions } = options\<close>. The state of the hook is
  \<^verbatim>\<open>intervalRef.current\<close>, the intervals that are alive (each with its period), whether
  the last run of the effect returned a cleanup, and the dependencies \<^verbatim>\<open>[enabled, interval]\<close>
  of the last run of the effect (\<open>None\<close> before the first render). The identifiers that
  \<^verbatim>\<open>setInterval\<close> returns are integers greater than zero, so that \<^verbatim>\<open>if (intervalRef.current)\<close>
  holds exactly when the ref holds an interval. Disabled, the effect clears the interval
  of the ref, sets the ref to \<^verbatim>\<open>null\<close> and returns no cleanup; enabled, it calls
  \<^verbatim>\<open>apiState.execute()\<close> once, installs \<^verbatim>\<open>setInterval(() => apiState.execute(), interval)\<close> in
  the ref and returns the cleanup that clears the interval of the ref. The result of a
  run is the new state and the number of calls of \<^verbatim>\<open>execute\<close> made.
\<close>

definition intervalOf :: "nat option \<Rightarrow> nat" where
  "intervalOf interval = (case interval of None \<Rightarrow> 3000 | Some ms \<Rightarrow> ms)"

definition enabledOf :: "bool option \<Rightarrow> bool" where
  "enabledOf enabled = (case enabled of None \<Rightarrow> True | Some b \<Rightarrow> b)"

definition depsOf :: "bool option \<times> nat option \<Rightarrow> bool \<times> nat" where
  "depsOf args = (enabledOf (fst args), intervalOf (snd args))"

record HookState =
  hook_alive :: "(nat \<times> nat) list"
  hook_ref :: "nat option"
  hook_next :: nat
  hook_cleanup :: bool
  hook_deps :: "(bool \<times> nat) option"

definition initialHook :: HookState where
  "initialHook =
     \<lparr>hook_alive = [], hook_ref = None, hook_next = 1, hook_cleanup = False, hook_deps = None\<rparr>"

definition clearInterval :: "nat option \<Rightarrow> (nat \<times> nat) list \<Rightarrow> (nat \<times> nat) list" where
  "clearInterval ref alive =
     (case ref of
        None \<Rightarrow> alive
      | Some i \<Rightarrow> if i \<noteq> 0 then filter (\<lambda>(j, ms). j \<noteq> i) alive else alive)"

definition hookCleanup :: "HookState \<Rightarrow> HookState" where
  "hookCleanup st =
     (if hook_cleanup st
      then st\<lparr>hook_alive := clearInterval (hook_ref st) (hook_alive st), hook_cleanup := False\<rparr>
      else st)"

definition hookEffect :: "bool \<Rightarrow> nat \<Rightarrow> HookState \<Rightarrow> HookState \<times> nat" where
  "hookEffect enabled interval st =
     (if \<not> enabled then
        (st\<lparr>hook_alive := clearInterval (hook_ref st) (hook_alive st),
            hook_ref := (case hook_ref st of None \<Rightarrow> None | Some i \<Rightarrow> if i \<noteq> 0 then None else Some i),
            hook_cleanup := False\<rparr>, 0)
      else
        (st\<lparr>hook_alive := (hook_next st, interval) # hook_alive st,
            hook_ref := Some (hook_next st),
            hook_next := Suc (hook_next st),
            hook_cleanup := True\<rparr>, 1))"

text \<open>
  A render of the component calls the hook with its arguments. React runs the effect
  after the first render and after every render whose dependencies \<^verbatim>\<open>[enabled, interval]\<close>
  (the values after the defaults) differ from those of the render before, the cleanup
  of the last run first; a render with the same dependencies runs neither. A tick of an
  interval calls \<^verbatim>\<open>execute\<close> if the interval is alive.
\<close>

definition hookRender :: "HookState \<Rightarrow> bool option \<times> nat option \<Rightarrow> HookState \<times> nat" where
  "hookRender st args =
     (if hook_deps st = Some (depsOf args) then (st, 0)
      else hookEffect (fst (depsOf args)) (snd (depsOf args))
             ((hookCleanup st)\<lparr>hook_deps := Some (depsOf args)\<rparr>))"

fun hookRun :: "HookState \<Rightarrow> (bool option \<times> nat option) list \<Rightarrow> HookState" where
  "hookRun st [] = st"
| "hookRun st (args # rest) = hookRun (fst (hookRender st args)) rest"

definition hookTick :: "HookState \<Rightarrow> nat \<Rightarrow> nat" where
  "hookTick st i = (if i \<in> fst ` set (hook_alive st) then 1 else 0)"

text \<open>
  Invariants: the interval of the page is the one the last run of the effect installed,
  with the current value of \<^verbatim>\<open>isTraining\<close>; after a run of the effect of \<^verbatim>\<open>useApiPolling\<close>
  with \<^verbatim>\<open>enabled\<close> true exactly the interval of the ref is alive, with the period of that
  run, and the effect has left its cleanup; before the first run and after a run with
  \<^verbatim>\<open>enabled\<close> false no interval is alive and the ref is \<^verbatim>\<open>null\<close>.
\<close>

definition timerInstalled :: "PageState \<Rightarrow> bool" where
  "timerInstalled st \<longleftrightarrow> page_timer st = Some (3000, page_isTraining st)"

definition hookInv :: "HookState \<Rightarrow> bool" where
  "hookInv st \<longleftrightarrow>
     0 < hook_next st
     \<and> (case hook_deps st of
          None \<Rightarrow> hook_alive st = [] \<and> hook_ref st = None \<and> \<not> hook_cleanup st
        | Some (enabled, interval) \<Rightarrow>
            if enabled then
              (\<exists>i. 0 < i \<and> i < hook_next st \<and> hook_alive st = [(i, interval)]
                   \<and> hook_ref st = Some i \<and> hook_cleanup st)
            else hook_alive st = [] \<and> hook_ref st = None \<and> \<not> hook_cleanup st)"

section \<open>Theorems\<close>

lemma transition_edge: "transition s t = Some s' \<longleftrightarrow> edge s t s'"
  by (cases s; cases t; cases s') (auto simp: edge.simps)

lemma transition_None_edge: "transition s t = None \<longleftrightarrow> (\<forall>s'. \<not> edge s t s')"
  by (cases s; cases t) (auto simp: edge.simps)

text \<open>
  Claim C1. Whatever the job and the trigger (start, pause, stop, edit, runner
  completion, runner error), the controller either moves the status along an edge of the
  table of section 4.4 and reports no error, or leaves the whole job (its status in
  particular) as it was and reports an error; when the table has no edge for the
  trigger in the current status the error is \<open>InvalidState\<close>, naming that status and
  that trigger.
\<close>

theorem C1_status_moves_only_along_edges:
  "(case applyTrigger refsExist job t of
      (job', None) \<Rightarrow> edge (job_status job) t (job_status job')
    | (job', Some e) \<Rightarrow> job' = job)
   \<and> ((\<forall>s'. \<not> edge (job_status job) t s') \<longrightarrow>
        applyTrigger refsExist job t = (job, Some (InvalidState (job_status job) t)))"
proof (cases "transition (job_status job) t")
  case None
  then show ?thesis
    by (simp add: applyTrigger_def)
next
  case (Some st')
  then have e: "edge (job_status job) t st'"
    by (simp add: transition_edge)
  with Some show ?thesis
    by (auto simp: applyTrigger_def)
qed

theorem C1_witness:
  "applyTrigger True
     \<lparr>job_id = ''j1'', job_name = ''t1'', job_model = ''m1'', job_dataset = ''d1'',
      job_status = Pending, job_progress = 0, job_createdAt = '''', job_duration = ''''\<rparr> Pause
   = (\<lparr>job_id = ''j1'', job_name = ''t1'', job_model = ''m1'', job_dataset = ''d1'',
       job_status = Pending, job_progress = 0, job_createdAt = '''', job_duration = ''''\<rparr>,
      Some (InvalidState Pending Pause))"
  using C1_status_moves_only_along_edges [where refsExist = True and t = Pause and job =
     "\<lparr>job_id = ''j1'', job_name = ''t1'', job_model = ''m1'', job_dataset = ''d1'',
      job_status = Pending, job_progress = 0, job_createdAt = '''', job_duration = ''''\<rparr>"]
  by (simp add: edge.simps)

text \<open>
  Claim C6. In the actions menu of a job of the jobs list, Start is offered exactly for
  a pending or paused job, Edit exactly for a pending one, Pause exactly for a running
  one, Stop exactly for a running or paused one, Download Model exactly for a completed
  one and Retry exactly for a failed one; View and Delete are offered for every status.
  For the four control actions this is exactly when the table of section 4.4 has a
  transition for the corresponding trigger from the job's status.
\<close>

theorem C6_menu_offers_legal_actions:
  "(ItemStart \<in> set (actionsMenu st) \<longleftrightarrow> st = Pending \<or> st = Paused)
   \<and> (ItemEdit \<in> set (actionsMenu st) \<longleftrightarrow> st = Pending)
   \<and> (ItemPause \<in> set (actionsMenu st) \<longleftrightarrow> st = Running)
   \<and> (ItemStop \<in> set (actionsMenu st) \<longleftrightarrow> st = Running \<or> st = Paused)
   \<and> (ItemDownloadModel \<in> set (actionsMenu st) \<longleftrightarrow> st = Completed)
   \<and> (ItemRetry \<in> set (actionsMenu st) \<longleftrightarrow> st = Failed)
   \<and> ItemView \<in> set (actionsMenu st)
   \<and> ItemDelete \<in> set (actionsMenu st)
   \<and> (ItemStart \<in> set (actionsMenu st) \<longleftrightarrow> transition st Start \<noteq> None)
   \<and> (ItemEdit \<in> set (actionsMenu st) \<longleftrightarrow> transition st Edit \<noteq> None)
   \<and> (ItemPause \<in> set (actionsMenu st) \<longleftrightarrow> transition st Pause \<noteq> None)
   \<and> (ItemStop \<in> set (actionsMenu st) \<longleftrightarrow> transition st Stop \<noteq> None)"
  by (cases st) (simp_all add: actionsMenu_def)

theorem C6_witness:
  "ItemStart \<in> set (actionsMenu Paused) \<and> ItemStop \<in> set (actionsMenu Paused)
   \<and> ItemEdit \<notin> set (actionsMenu Paused) \<and> ItemPause \<notin> set (actionsMenu Paused)
   \<and> ItemRetry \<notin> set (actionsMenu Paused) \<and> ItemDownloadModel \<notin> set (actionsMenu Paused)
   \<and> ItemView \<in> set (actionsMenu Paused) \<and> ItemDelete \<in> set (actionsMenu Paused)"
  using C6_menu_offers_legal_actions [where st = Paused]
  by simp

lemma fetchLoop_done:
  "\<not> attempt \<le> retry \<Longrightarrow>
   fetchLoop fetch url fo retry d attempt le =
     (Inl (ApiError
            (''Network request failed after '' @ numberToString (retry + 1) @ '' attempts: ''
               @ (case le of
                    None \<Rightarrow> ''undefined''
                  | Some e \<Rightarrow> (case errorMessage e of None \<Rightarrow> ''undefined'' | Some m \<Rightarrow> m)))
            None
            (case le of None \<Rightarrow> NoData | Some e \<Rightarrow> Cause e)), [])"
  by (subst fetchLoop.simps) simp

lemma fetchLoop_resolve:
  "attempt \<le> retry \<Longrightarrow> fetch attempt = FetchResolves r \<Longrightarrow>
   fetchLoop fetch url fo retry d attempt le = (Inr r, [FetchCall url fo])"
  by (subst fetchLoop.simps) simp

lemma fetchLoop_reject:
  "attempt \<le> retry \<Longrightarrow> fetch attempt = FetchRejects e \<Longrightarrow>
   fetchLoop fetch url fo retry d attempt le =
     (fst (fetchLoop fetch url fo retry d (attempt + 1) (Some e)),
      FetchCall url fo # (if attempt < retry then [Wait d] else [])
        @ snd (fetchLoop fetch url fo retry d (attempt + 1) (Some e)))"
  by (subst fetchLoop.simps) (simp split: prod.splits)

lemma fetchLoop_attempts:
  "attempts (snd (fetchLoop fetch url fo retry d attempt le)) \<le> Suc retry - attempt"
proof (induction fetch url fo retry d attempt le rule: fetchLoop.induct)
  case (1 fetch url fo retry d attempt le)
  show ?case
  proof (cases "attempt \<le> retry")
    case False
    then show ?thesis
      by (simp add: fetchLoop_done attempts_def)
  next
    case True
    show ?thesis
    proof (cases "fetch attempt")
      case (FetchResolves r)
      with True show ?thesis
        by (simp add: fetchLoop_resolve attempts_def)
    next
      case (FetchRejects e)
      with True "1.IH" [of e] show ?thesis
        by (simp add: fetchLoop_reject attempts_def)
    qed
  qed
qed

lemma fetchLoop_resolves:
  "attempt \<le> k \<Longrightarrow> k \<le> retry \<Longrightarrow> (\<forall>i. attempt \<le> i \<and> i < k \<longrightarrow> rejects (fetch i))
   \<Longrightarrow> fetch k = FetchResolves resp
   \<Longrightarrow> fst (fetchLoop fetch url fo retry d attempt le) = Inr resp
       \<and> attempts (snd (fetchLoop fetch url fo retry d attempt le)) = Suc k - attempt"
proof (induction fetch url fo retry d attempt le rule: fetchLoop.induct)
  case (1 fetch url fo retry d attempt le)
  show ?case
  proof (cases "attempt = k")
    case True
    with "1.prems" show ?thesis
      by (simp add: fetchLoop_resolve attempts_def)
  next
    case False
    with "1.prems" have lt: "attempt < k" by simp
    with "1.prems" have "rejects (fetch attempt)" by simp
    then obtain e where e: "fetch attempt = FetchRejects e"
      by (cases "fetch attempt") auto
    have "fst (fetchLoop fetch url fo retry d (attempt + 1) (Some e)) = Inr resp
       \<and> attempts (snd (fetchLoop fetch url fo retry d (attempt + 1) (Some e))) = Suc k - (attempt + 1)"
      using "1.IH" [OF _ e] "1.prems" lt by auto
    with e lt "1.prems" show ?thesis
      by (simp add: fetchLoop_reject attempts_def Suc_diff_le)
  qed
qed

lemma fetchLoop_all_reject:
  "attempt \<le> retry \<Longrightarrow> (\<forall>i. attempt \<le> i \<and> i \<le> retry \<longrightarrow> rejects (fetch i))
   \<Longrightarrow> fetch retry = FetchRejects e
   \<Longrightarrow> fst (fetchLoop fetch url fo retry d attempt le) = Inl (networkFailure retry e)
       \<and> attempts (snd (fetchLoop fetch url fo retry d attempt le)) = Suc retry - attempt"
proof (induction fetch url fo retry d attempt le rule: fetchLoop.induct)
  case (1 fetch url fo retry d attempt le)
  from "1.prems" have "rejects (fetch attempt)" by simp
  then obtain e' where e': "fetch attempt = FetchRejects e'"
    by (cases "fetch attempt") auto
  show ?case
  proof (cases "attempt = retry")
    case True
    with e' "1.prems" have "e' = e" by simp
    with True e' show ?thesis
      by (simp add: fetchLoop_reject fetchLoop_done attempts_def networkFailure_def)
  next
    case False
    with "1.prems" have lt: "attempt < retry" by simp
    have "fst (fetchLoop fetch url fo retry d (attempt + 1) (Some e')) = Inl (networkFailure retry e)
       \<and> attempts (snd (fetchLoop fetch url fo retry d (attempt + 1) (Some e'))) = Suc retry - (attempt + 1)"
      using "1.IH" [OF _ e'] "1.prems" lt by auto
    with e' lt show ?thesis
      by (simp add: fetchLoop_reject attempts_def Suc_diff_le)
  qed
qed

lemma first_resolving_attempt:
  assumes "(i::nat) \<le> r" and "\<not> rejects (fetch i)"
  shows "\<exists>k resp. k \<le> r \<and> (\<forall>j<k. rejects (fetch j)) \<and> fetch k = FetchResolves resp"
proof -
  define k where "k = (LEAST j. \<not> rejects (fetch j))"
  have nk: "\<not> rejects (fetch k)"
    unfolding k_def using LeastI [of "\<lambda>j. \<not> rejects (fetch j)" i] assms(2) by simp
  have "k \<le> i"
    unfolding k_def using Least_le [of "\<lambda>j. \<not> rejects (fetch j)" i] assms(2) by simp
  with assms(1) have "k \<le> r" by simp
  moreover have "\<forall>j<k. rejects (fetch j)"
    unfolding k_def using not_less_Least [of _ "\<lambda>j. \<not> rejects (fetch j)"] by blast
  moreover from nk obtain resp where "fetch k = FetchResolves resp"
    by (cases "fetch k") auto
  ultimately show ?thesis by blast
qed

text \<open>
  Claim C9. With \<open>retry = r\<close>, \<open>fetchWithRetry\<close> calls \<open>fetch\<close> at most \<open>r + 1\<close> times;
  the first attempt whose \<open>fetch\<close> resolves ends the loop with that response, whatever
  its HTTP status, after exactly that many attempts; and an error is thrown exactly when
  all \<open>r + 1\<close> attempts reject, in which case it is the \<open>ApiError\<close> naming \<open>r + 1\<close>
  attempts and the message of the last rejection.
\<close>

theorem C9_fetchWithRetry_attempts:
  "attempts (snd (fetchWithRetry fetch url options)) \<le> retryOf options + 1
   \<and> (\<forall>k resp. k \<le> retryOf options \<and> (\<forall>i<k. rejects (fetch i)) \<and> fetch k = FetchResolves resp
        \<longrightarrow> fst (fetchWithRetry fetch url options) = Inr resp
            \<and> attempts (snd (fetchWithRetry fetch url options)) = k + 1)
   \<and> ((\<exists>err. fst (fetchWithRetry fetch url options) = Inl err)
        \<longleftrightarrow> (\<forall>i \<le> retryOf options. rejects (fetch i)))
   \<and> (\<forall>e. (\<forall>i \<le> retryOf options. rejects (fetch i)) \<and> fetch (retryOf options) = FetchRejects e
        \<longrightarrow> fst (fetchWithRetry fetch url options) = Inl (networkFailure (retryOf options) e)
            \<and> attempts (snd (fetchWithRetry fetch url options)) = retryOf options + 1)"
proof -
  let ?r = "retryOf options"
  let ?res = "fetchWithRetry fetch url options"
  have bound: "attempts (snd ?res) \<le> ?r + 1"
    using fetchLoop_attempts [of fetch url "FetchInit.truncate options" ?r "retryDelayOf options" 0 None]
    by (simp add: fetchWithRetry_def)
  have resolves: "fst ?res = Inr resp \<and> attempts (snd ?res) = k + 1"
    if "k \<le> ?r" "\<forall>i<k. rejects (fetch i)" "fetch k = FetchResolves resp" for k resp
    using fetchLoop_resolves [of 0 k ?r fetch resp url "FetchInit.truncate options" "retryDelayOf options" None] that
    by (simp add: fetchWithRetry_def)
  have all_reject: "fst ?res = Inl (networkFailure ?r e) \<and> attempts (snd ?res) = ?r + 1"
    if "\<forall>i \<le> ?r. rejects (fetch i)" "fetch ?r = FetchRejects e" for e
    using fetchLoop_all_reject [of 0 ?r fetch e url "FetchInit.truncate options" "retryDelayOf options" None] that
    by (simp add: fetchWithRetry_def)
  have iff: "(\<exists>err. fst ?res = Inl err) \<longleftrightarrow> (\<forall>i \<le> ?r. rejects (fetch i))"
  proof
    assume err: "\<exists>err. fst ?res = Inl err"
    show "\<forall>i \<le> ?r. rejects (fetch i)"
    proof (rule ccontr)
      assume "\<not> (\<forall>i \<le> ?r. rejects (fetch i))"
      then obtain i where "i \<le> ?r" "\<not> rejects (fetch i)" by blast
      then obtain k resp where "k \<le> ?r" "\<forall>j<k. rejects (fetch j)" "fetch k = FetchResolves resp"
        using first_resolving_attempt by blast
      then have "fst ?res = Inr resp" using resolves by blast
      with err show False by simp
    qed
  next
    assume all: "\<forall>i \<le> ?r. rejects (fetch i)"
    then have "rejects (fetch ?r)" by simp
    then obtain e where "fetch ?r = FetchRejects e"
      by (cases "fetch ?r") auto
    with all all_reject show "\<exists>err. fst ?res = Inl err" by blast
  qed
  from bound resolves all_reject iff show ?thesis by blast
qed

theorem C9_witness:
  "fst (fetchWithRetry
          (\<lambda>i. if i < 2 then FetchRejects (TypeError ''Failed to fetch'')
                else FetchResolves \<lparr>resp_status = 500, resp_statusText = ''Internal Server Error'', resp_body = None\<rparr>)
          ''http://localhost:8000/api/jobs''
          \<lparr>init_method = None, init_headers = [], init_body = None,
           opt_params = None, opt_retry = Some 2, opt_retryDelay = None\<rparr>)
     = Inr \<lparr>resp_status = 500, resp_statusText = ''Internal Server Error'', resp_body = None\<rparr>
   \<and> attempts (snd (fetchWithRetry
          (\<lambda>i. if i < 2 then FetchRejects (TypeError ''Failed to fetch'')
                else FetchResolves \<lparr>resp_status = 500, resp_statusText = ''Internal Server Error'', resp_body = None\<rparr>)
          ''http://localhost:8000/api/jobs''
          \<lparr>init_method = None, init_headers = [], init_body = None,
           opt_params = None, opt_retry = Some 2, opt_retryDelay = None\<rparr>)) = 3"
proof -
  let ?resp = "\<lparr>resp_status = 500, resp_statusText = ''Internal Server Error'', resp_body = None\<rparr>"
  let ?fetch = "\<lambda>i::nat. if i < 2 then FetchRejects (TypeError ''Failed to fetch'') else FetchResolves ?resp"
  let ?opts = "\<lparr>init_method = None, init_headers = [], init_body = None,
           opt_params = None, opt_retry = Some (2::nat), opt_retryDelay = None\<rparr>"
  have r: "retryOf ?opts = 2" by (simp add: retryOf_def)
  have "(2::nat) \<le> retryOf ?opts \<and> (\<forall>i<2. rejects (?fetch i)) \<and> ?fetch 2 = FetchResolves ?resp"
    by (simp add: r)
  with C9_fetchWithRetry_attempts [where fetch = ?fetch and options = ?opts and url = "''http://localhost:8000/api/jobs''"]
  show ?thesis by (simp only: ) auto
qed

subsection \<open>Lines, \<open>split\<close>, \<open>join\<close> and \<open>trim\<close>\<close>

lemma split_not_Nil: "split sep s \<noteq> []"
  by (induction s) (auto split: list.splits)

lemma length_split: "length (split sep s) = Suc (countChar sep s)"
proof (induction s)
  case Nil
  show ?case by (simp add: countChar_def)
next
  case (Cons c cs)
  then show ?case
    using split_not_Nil [of sep cs]
    by (cases "split sep cs") (auto simp: countChar_def)
qed

lemma split_no_sep: "sep \<notin> set s \<Longrightarrow> split sep s = [s]"
  by (induction s) auto

lemma split_append_sep:
  "sep \<notin> set l \<Longrightarrow> split sep (l @ sep # rest) = l # split sep rest"
  by (induction l) auto

lemma join_char: "join [c] (x # xs) = x @ concat (map ((#) c) xs)"
  by (induction xs arbitrary: x) auto

lemma split_concat:
  "sep \<notin> set x \<Longrightarrow> \<forall>l \<in> set xs. sep \<notin> set l
   \<Longrightarrow> split sep (x @ concat (map ((#) sep) xs)) = x # xs"
proof (induction xs arbitrary: x)
  case Nil
  then show ?case by (simp add: split_no_sep)
next
  case (Cons y ys)
  then have "split sep (y @ concat (map ((#) sep) ys)) = y # ys" by simp
  with Cons.prems show ?case
    using split_append_sep [of sep x "y @ concat (map ((#) sep) ys)"] by simp
qed

lemma split_join:
  "lines \<noteq> [] \<Longrightarrow> \<forall>l \<in> set lines. sep \<notin> set l \<Longrightarrow> split sep (join [sep] lines) = lines"
  by (cases lines) (simp_all add: join_char split_concat)

lemma countChar_append [simp]: "countChar c (a @ b) = countChar c a + countChar c b"
  by (simp add: countChar_def)

lemma countChar_notin: "c \<notin> set s \<Longrightarrow> countChar c s = 0"
  by (induction s) (auto simp: countChar_def)

lemma countChar_concat:
  "\<forall>l \<in> set xs. c \<notin> set l \<Longrightarrow> countChar c (concat (map ((#) c) xs)) = length xs"
proof (induction xs)
  case Nil
  show ?case by (simp add: countChar_def)
next
  case (Cons y ys)
  then have "countChar c (concat (map ((#) c) ys)) = length ys" and "countChar c y = 0"
    by (simp_all add: countChar_notin)
  then show ?case
    using countChar_append [of c "c # y" "concat (map ((#) c) ys)"]
    by (simp add: countChar_def)
qed

lemma set_dropWhile_subset: "set (dropWhile P xs) \<subseteq> set xs"
  by (auto dest: set_dropWhileD)

lemma dropWhile_all: "\<forall>x \<in> set xs. P x \<Longrightarrow> dropWhile P (xs @ ys) = dropWhile P ys"
  by (induction xs) auto

lemma trim_blank: "blank s \<Longrightarrow> trim s = []"
  using set_dropWhile_subset [of isJSWhitespace s]
  by (auto simp: trim_def blank_def list_all_iff)

lemma trim_blank_suffix: "blank t \<Longrightarrow> trim (s @ t) = trim s"
proof (cases "blank s")
  case True
  assume "blank t"
  with True have "blank (s @ t)" by (simp add: blank_def)
  with True show ?thesis by (simp add: trim_blank)
next
  case False
  assume t: "blank t"
  from False have "dropWhile isJSWhitespace (s @ t) = dropWhile isJSWhitespace s @ t"
    by (auto simp: blank_def list_all_iff dropWhile_append1)
  moreover from t have "dropWhile isJSWhitespace (rev t @ rev (dropWhile isJSWhitespace s))
      = dropWhile isJSWhitespace (rev (dropWhile isJSWhitespace s))"
    using dropWhile_all [of "rev t" isJSWhitespace] by (simp add: blank_def list_all_iff)
  ultimately show ?thesis by (simp add: trim_def)
qed

lemma set_trim: "set (trim s) \<subseteq> set s"
proof -
  have "set (dropWhile isJSWhitespace (rev (dropWhile isJSWhitespace s)))
      \<subseteq> set (rev (dropWhile isJSWhitespace s))"
    by (rule set_dropWhile_subset)
  moreover have "set (dropWhile isJSWhitespace s) \<subseteq> set s"
    by (rule set_dropWhile_subset)
  ultimately show ?thesis by (auto simp: trim_def)
qed

lemma trim_append:
  assumes "\<not> blank a" and "\<not> blank b"
  shows "trim (a @ m @ b) = dropWhile isJSWhitespace a @ m @ rev (dropWhile isJSWhitespace (rev b))"
proof -
  from assms(1) have "dropWhile isJSWhitespace (a @ m @ b) = dropWhile isJSWhitespace a @ m @ b"
    by (auto simp: blank_def list_all_iff dropWhile_append1)
  moreover from assms(2) have
    "dropWhile isJSWhitespace (rev b @ rev m @ rev (dropWhile isJSWhitespace a))
      = dropWhile isJSWhitespace (rev b) @ rev m @ rev (dropWhile isJSWhitespace a)"
    by (auto simp: blank_def list_all_iff dropWhile_append1)
  ultimately show ?thesis by (simp add: trim_def)
qed

lemma countChar_dropWhile: "c \<notin> set s \<Longrightarrow> countChar c (dropWhile P s) = 0"
  using set_dropWhile_subset [of P s] by (intro countChar_notin) auto

lemma count_lines_trim:
  assumes nl: "\<forall>l \<in> set (header # rows). CHR 0x0A \<notin> set l"
    and h: "\<not> blank header"
    and l: "rows \<noteq> [] \<longrightarrow> \<not> blank (last rows)"
    and t: "blank trailer"
  shows "countChar (CHR 0x0A) (trim (join [CHR 0x0A] (header # rows) @ trailer)) = length rows"
proof (cases rows rule: rev_cases)
  case Nil
  from nl have "CHR 0x0A \<notin> set (trim header)"
    using set_trim [of header] by auto
  with Nil t show ?thesis
    by (simp add: trim_blank_suffix countChar_notin)
next
  case (snoc rs r)
  let ?m = "concat (map ((#) (CHR 0x0A)) rs) @ [CHR 0x0A]"
  have j: "join [CHR 0x0A] (header # rows) = header @ ?m @ r"
    by (simp add: join_char snoc)
  from l snoc have r: "\<not> blank r" by simp
  from nl snoc have nlr: "CHR 0x0A \<notin> set r" and nlh: "CHR 0x0A \<notin> set header"
    and nlrs: "\<forall>l \<in> set rs. CHR 0x0A \<notin> set l" by auto
  have cm: "countChar (CHR 0x0A) ?m = length rows"
    using countChar_concat [OF nlrs] unfolding snoc by (simp add: countChar_def)
  have "trim (join [CHR 0x0A] (header # rows) @ trailer) = trim (header @ ?m @ r)"
    using t by (simp only: j trim_blank_suffix)
  also have "\<dots> = dropWhile isJSWhitespace header @ ?m @ rev (dropWhile isJSWhitespace (rev r))"
    using h r by (rule trim_append)
  finally have "countChar (CHR 0x0A) (trim (join [CHR 0x0A] (header # rows) @ trailer))
      = countChar (CHR 0x0A) (dropWhile isJSWhitespace header) + countChar (CHR 0x0A) ?m
        + countChar (CHR 0x0A) (rev (dropWhile isJSWhitespace (rev r)))"
    by (simp only: countChar_append)
  moreover have "countChar (CHR 0x0A) (dropWhile isJSWhitespace header) = 0"
    using nlh by (rule countChar_dropWhile)
  moreover have "countChar (CHR 0x0A) (rev (dropWhile isJSWhitespace (rev r))) = 0"
    using nlr set_dropWhile_subset [of isJSWhitespace "rev r"] by (intro countChar_notin) auto
  ultimately show ?thesis using cm by simp
qed

lemma trim_id:
  assumes "s \<noteq> []" and "\<not> isJSWhitespace (hd s)" and "\<not> isJSWhitespace (last s)"
  shows "trim s = s"
proof -
  from assms have "dropWhile isJSWhitespace s = s"
    by (cases s) auto
  moreover from assms have "dropWhile isJSWhitespace (rev s) = rev s"
    by (cases s rule: rev_cases) auto
  ultimately show ?thesis by (simp add: trim_def)
qed

lemma trim_eq_Nil_iff: "trim s = [] \<longleftrightarrow> blank s"
proof
  assume "blank s"
  then show "trim s = []" by (rule trim_blank)
next
  assume e: "trim s = []"
  show "blank s"
  proof (rule ccontr)
    assume nb: "\<not> blank s"
    then have "dropWhile isJSWhitespace s \<noteq> []"
      by (simp add: blank_def list_all_iff)
    then obtain c cs where d: "dropWhile isJSWhitespace s = c # cs"
      by (cases "dropWhile isJSWhitespace s") auto
    then have c: "\<not> isJSWhitespace c"
      using hd_dropWhile [of isJSWhitespace s] by auto
    have "dropWhile isJSWhitespace (rev cs @ [c]) \<noteq> []"
      using c by (simp add: dropWhile_append3)
    with d e show False by (simp add: trim_def)
  qed
qed

subsection \<open>Counting the samples of an uploaded file\<close>

text \<open>
  Claim C5. An uploaded file with extension \<^verbatim>\<open>.csv\<close> whose text is a header line
  followed by \<open>n\<close> data lines, joined by newlines and possibly followed by white space
  such as a final newline, is counted as \<open>n\<close> samples, and the upload branch of
  \<^verbatim>\<open>handleSaveDataset\<close> stores that number as \<^verbatim>\<open>samples\<close>. A line has no newline inside
  it; the header and the last data line are lines in the sense that they are not blank.
  The witness is scenario E: a header and three data rows give 3.
\<close>

theorem C5_csv_upload_counts_data_lines:
  assumes ext: "fileExtension (file_name file) = Some ''csv''"
    and content: "file_text file = Some (join [CHR 0x0A] (header # rows) @ trailer)"
    and nl: "\<forall>l \<in> set (header # rows). CHR 0x0A \<notin> set l"
    and h: "\<not> blank header"
    and l: "rows \<noteq> [] \<longrightarrow> \<not> blank (last rows)"
    and t: "blank trailer"
  shows "parseFileForSampleCount file = Resolves (length rows)
     \<and> (\<forall>now today st. modalMode st = ModeUpload \<and> uploadedFile st = Some file \<longrightarrow>
          map_option ds_samples (handleSaveDataset now today st) = Some (length rows))"
proof -
  have "sampleCount (file_name file) (join [CHR 0x0A] (header # rows) @ trailer) = length rows"
    using count_lines_trim [OF nl h l t] ext
    by (simp add: sampleCount_def length_split)
  with content have p: "parseFileForSampleCount file = Resolves (length rows)"
    by (simp add: parseFileForSampleCount_def)
  then show ?thesis
    by (simp add: handleSaveDataset_def)
qed

theorem C5_witness:
  "parseFileForSampleCount
     \<lparr>file_name = ''train.csv'', file_size = 43,
      file_text = Some ''instruction,input,output\<newline>a,b,c\<newline>d,e,f\<newline>g,h,i\<newline>''\<rparr>
   = Resolves 3
   \<and> map_option ds_samples
       (handleSaveDataset 0 ''2025-11-01''
          \<lparr>modalMode = ModeUpload, datasetName = [], selectedFormat = FormatJson, csvRows = [],
           uploadedFile = Some \<lparr>file_name = ''train.csv'', file_size = 43,
             file_text = Some ''instruction,input,output\<newline>a,b,c\<newline>d,e,f\<newline>g,h,i\<newline>''\<rparr>\<rparr>)
     = Some 3"
proof -
  let ?file = "\<lparr>file_name = ''train.csv'', file_size = 43,
      file_text = Some ''instruction,input,output\<newline>a,b,c\<newline>d,e,f\<newline>g,h,i\<newline>''\<rparr>"
  have ext: "fileExtension (file_name ?file) = Some ''csv''"
    by (simp add: fileExtension_def toLowerCase_def toLowerChar_def)
  have content: "file_text ?file
      = Some (join [CHR 0x0A] (''instruction,input,output'' # [''a,b,c'', ''d,e,f'', ''g,h,i'']) @ ''\<newline>'')"
    by simp
  have nl: "\<forall>l \<in> set (''instruction,input,output'' # [''a,b,c'', ''d,e,f'', ''g,h,i'']). CHR 0x0A \<notin> set l"
    by simp
  have h: "\<not> blank ''instruction,input,output''"
    by (simp add: blank_def isJSWhitespace_def)
  have l: "[''a,b,c'', ''d,e,f'', ''g,h,i''] \<noteq> [] \<longrightarrow> \<not> blank (last [''a,b,c'', ''d,e,f'', ''g,h,i''])"
    by (simp add: blank_def isJSWhitespace_def)
  have t: "blank ''\<newline>''"
    by (simp add: blank_def isJSWhitespace_def)
  let ?st = "\<lparr>modalMode = ModeUpload, datasetName = [], selectedFormat = FormatJson, csvRows = [],
           uploadedFile = Some ?file\<rparr>"
  note inst = C5_csv_upload_counts_data_lines [OF ext content nl h l t]
  from inst have a: "parseFileForSampleCount ?file = Resolves 3"
    by simp
  from inst have "modalMode ?st = ModeUpload \<and> uploadedFile ?st = Some ?file \<longrightarrow>
      map_option ds_samples (handleSaveDataset 0 ''2025-11-01'' ?st)
        = Some (length [''a,b,c'', ''d,e,f'', ''g,h,i''])"
    by blast
  then have "map_option ds_samples (handleSaveDataset 0 ''2025-11-01'' ?st) = Some 3"
    by (simp add: numeral_3_eq_3)
  with a show ?thesis by simp
qed

subsection \<open>The fuel of the JSON parser\<close>

text \<open>
  Every parser consumes at least one character of a text it accepts, and the fuel it
  needs is bounded by the number of characters it consumes.
\<close>

lemma skipWS_length: "length (skipWS s) \<le> length s"
  by (simp add: skipWS_def length_dropWhile_le)

lemma consChar_Some:
  "consChar c p = Some (str, r) \<longleftrightarrow> (\<exists>str'. p = Some (str', r) \<and> str = c # str')"
  by (cases p) (auto simp: consChar_def)

lemma parseStringBody_length:
  "parseStringBody s = Some (str, r) \<Longrightarrow> length r < length s"
proof (induction s arbitrary: str rule: parseStringBody.induct)
  case 1
  then show ?case by simp
next
  case (2 c cs)
  show ?case
  proof (cases "c = CHR 0x22")
    case True
    with "2.prems" show ?thesis by simp
  next
    case nq: False
    show ?thesis
    proof (cases "c = CHR 0x5C")
      case False
      with nq "2.prems" obtain str' where "parseStringBody cs = Some (str', r)"
        by (auto simp: consChar_Some split: if_splits)
      with "2.IH"(3) [OF nq False] "2.prems" nq False show ?thesis
        by (auto split: if_splits)
    next
      case True
      show ?thesis
      proof (cases cs)
        case Nil
        with True nq "2.prems" show ?thesis by simp
      next
        case (Cons e cs')
        show ?thesis
        proof (cases "e = CHR ''u''")
          case False
          with True nq Cons "2.prems" obtain d str' where
            "unescape e = Some d" "parseStringBody cs' = Some (str', r)"
            by (auto simp: consChar_Some split: option.splits)
          with "2.IH"(2) [OF nq True Cons False] Cons show ?thesis
            by fastforce
        next
          case u: True
          with True nq Cons "2.prems" obtain h1 h2 h3 h4 cs'' a b c' d str' where
            "cs' = h1 # h2 # h3 # h4 # cs''" "hexVal h1 = Some a" "hexVal h2 = Some b"
            "hexVal h3 = Some c'" "hexVal h4 = Some d"
            "parseStringBody cs'' = Some (str', r)"
            by (auto simp: consChar_Some split: list.splits option.splits)
          with "2.IH"(1) [OF nq True Cons u] Cons show ?thesis
            by fastforce
        qed
      qed
    qed
  qed
qed

lemma parseDigits_length: "parseDigits s = Some (ds, r) \<Longrightarrow> length r < length s"
proof -
  assume "parseDigits s = Some (ds, r)"
  then have ne: "takeWhile isDigit s \<noteq> []" and r: "r = dropWhile isDigit s"
    by (auto simp: parseDigits_def split: if_splits)
  have "length (takeWhile isDigit s) + length (dropWhile isDigit s) = length s"
    by (metis length_append takeWhile_dropWhile_id)
  with ne r show ?thesis by (cases "takeWhile isDigit s") auto
qed

lemma parseDigits_length_le: "parseDigits s = Some (ds, r) \<Longrightarrow> length r \<le> length s"
  using parseDigits_length [of s ds r] by simp

lemma parseSign_length: "parseSign s = (sg, r) \<Longrightarrow> length r \<le> length s"
  by (auto simp: parseSign_def split: list.splits if_splits)

lemma parseInt_length: "parseInt s = Some (ip, r) \<Longrightarrow> length r < length s"
  by (auto simp: parseInt_def split: list.splits if_splits dest: parseDigits_length)

lemma parseFrac_length: "parseFrac s = Some (fp, r) \<Longrightarrow> length r \<le> length s"
  by (auto simp: parseFrac_def split: list.splits if_splits option.splits dest: parseDigits_length)

lemma parseExpSign_length: "parseExpSign s = (sg, r) \<Longrightarrow> length r \<le> length s"
  by (auto simp: parseExpSign_def split: list.splits if_splits)

lemma parseExp_length: "parseExp s = Some (ep, r) \<Longrightarrow> length r \<le> length s"
  by (auto simp: parseExp_def split: list.splits if_splits option.splits prod.splits
      dest!: parseDigits_length parseExpSign_length)

lemma parseNumber_length:
  assumes "parseNumber s = Some (t, r)"
  shows "length r < length s"
proof -
  from assms obtain sg s1 ip s2 fp s3 ep where
    a: "parseSign s = (sg, s1)" and b: "parseInt s1 = Some (ip, s2)"
    and c: "parseFrac s2 = Some (fp, s3)" and d: "parseExp s3 = Some (ep, r)"
    by (auto simp: parseNumber_def split: prod.splits option.splits)
  from parseSign_length [OF a] parseInt_length [OF b] parseFrac_length [OF c] parseExp_length [OF d]
  show ?thesis by simp
qed

lemma parseValue_leaf_length:
  assumes "parseValue (Suc n) (c # r0) = Some (v, r)" and "c \<noteq> CHR ''[''" and "c \<noteq> CHR ''{''"
  shows "length r < length (c # r0)"
proof (cases "c = CHR 0x22")
  case True
  with assms obtain str where "parseStringBody r0 = Some (str, r)"
    by (auto split: option.splits)
  from parseStringBody_length [OF this] show ?thesis by simp
next
  case False
  with assms show ?thesis
    by (auto split: option.splits if_splits dest: parseNumber_length)
qed

lemma parseValue_leaf_fuel:
  assumes "c \<noteq> CHR ''[''" and "c \<noteq> CHR ''{''"
  shows "parseValue (Suc n) (c # r0) = parseValue (Suc m) (c # r0)"
  using assms by simp

lemma parseValue_Nil: "parseValue n [] = None"
  by (cases n) simp_all

lemma parseElements_step:
  assumes IHV: "\<And>s v r. parseValue n s = Some (v, r) \<Longrightarrow>
      length r < length s \<and> (\<forall>m\<ge>length s - length r. parseValue m s = Some (v, r))"
    and IHE: "\<And>acc s v r. parseElements n acc s = Some (v, r) \<Longrightarrow>
      length r < length s \<and> (\<forall>m\<ge>length s - length r. parseElements m acc s = Some (v, r))"
    and run: "parseElements (Suc n) acc s = Some (v, r)"
  shows "length r < length s \<and> (\<forall>m\<ge>length s - length r. parseElements m acc s = Some (v, r))"
proof -
  from run obtain v1 r1 c r' where pv: "parseValue n s = Some (v1, r1)"
    and ws: "skipWS r1 = c # r'"
    and alt: "(c = CHR '','' \<and> parseElements n (acc @ [v1]) (skipWS r') = Some (v, r))
       \<or> (c = CHR '']'' \<and> v = JArray (acc @ [v1]) \<and> r = r')"
    by (auto split: option.splits list.splits if_splits)
  from IHV [OF pv] have l1: "length r1 < length s"
    and f1: "\<And>m. length s - length r1 \<le> m \<Longrightarrow> parseValue m s = Some (v1, r1)"
    by auto
  from ws skipWS_length [of r1] have l2: "Suc (length r') \<le> length r1" by simp
  from alt show ?thesis
  proof
    assume a: "c = CHR '','' \<and> parseElements n (acc @ [v1]) (skipWS r') = Some (v, r)"
    then have pe: "parseElements n (acc @ [v1]) (skipWS r') = Some (v, r)" by simp
    from IHE [OF pe] have l3: "length r < length (skipWS r')"
      and f3: "\<And>m. length (skipWS r') - length r \<le> m \<Longrightarrow>
                 parseElements m (acc @ [v1]) (skipWS r') = Some (v, r)"
      by auto
    have l4: "length (skipWS r') \<le> length r'" by (rule skipWS_length)
    show ?thesis
    proof (intro conjI allI impI)
      show "length r < length s" using l1 l2 l3 l4 by simp
    next
      fix m assume "length s - length r \<le> m"
      with l1 l2 l3 l4 obtain m' where m: "m = Suc m'" and m1: "length s - length r1 \<le> m'"
        and m3: "length (skipWS r') - length r \<le> m'"
        by (cases m) auto
      from f1 [OF m1] f3 [OF m3] ws a show "parseElements m acc s = Some (v, r)"
        by (simp add: m)
    qed
  next
    assume a: "c = CHR '']'' \<and> v = JArray (acc @ [v1]) \<and> r = r'"
    show ?thesis
    proof (intro conjI allI impI)
      show "length r < length s" using l1 l2 a by simp
    next
      fix m assume "length s - length r \<le> m"
      with l1 l2 a obtain m' where m: "m = Suc m'" and m1: "length s - length r1 \<le> m'"
        by (cases m) auto
      from f1 [OF m1] ws a show "parseElements m acc s = Some (v, r)"
        by (simp add: m)
    qed
  qed
qed

lemma parseMembers_step:
  assumes IHV: "\<And>s v r. parseValue n s = Some (v, r) \<Longrightarrow>
      length r < length s \<and> (\<forall>m\<ge>length s - length r. parseValue m s = Some (v, r))"
    and IHM: "\<And>acc s v r. parseMembers n acc s = Some (v, r) \<Longrightarrow>
      length r < length s \<and> (\<forall>m\<ge>length s - length r. parseMembers m acc s = Some (v, r))"
    and run: "parseMembers (Suc n) acc s = Some (v, r)"
  shows "length r < length s \<and> (\<forall>m\<ge>length s - length r. parseMembers m acc s = Some (v, r))"
proof -
  from run obtain r0 k r1 r2 v1 r3 c r4 where s: "s = CHR 0x22 # r0"
    and key: "parseStringBody r0 = Some (k, r1)"
    and colon: "skipWS r1 = CHR '':'' # r2"
    and pv: "parseValue n (skipWS r2) = Some (v1, r3)"
    and ws: "skipWS r3 = c # r4"
    and alt: "(c = CHR '','' \<and> parseMembers n (acc @ [(k, v1)]) (skipWS r4) = Some (v, r))
       \<or> (c = CHR ''}'' \<and> v = JObject (acc @ [(k, v1)]) \<and> r = r4)"
    by (auto split: option.splits list.splits if_splits)
  from parseStringBody_length [OF key] s have l0: "length r1 < length s" by simp
  from colon skipWS_length [of r1] have l1: "Suc (length r2) \<le> length r1" by simp
  have l2: "length (skipWS r2) \<le> length r2" by (rule skipWS_length)
  from IHV [OF pv] have l3: "length r3 < length (skipWS r2)"
    and f3: "\<And>m. length (skipWS r2) - length r3 \<le> m \<Longrightarrow> parseValue m (skipWS r2) = Some (v1, r3)"
    by auto
  from ws skipWS_length [of r3] have l4: "Suc (length r4) \<le> length r3" by simp
  from alt show ?thesis
  proof
    assume a: "c = CHR '','' \<and> parseMembers n (acc @ [(k, v1)]) (skipWS r4) = Some (v, r)"
    then have pm: "parseMembers n (acc @ [(k, v1)]) (skipWS r4) = Some (v, r)" by simp
    from IHM [OF pm] have l5: "length r < length (skipWS r4)"
      and f5: "\<And>m. length (skipWS r4) - length r \<le> m \<Longrightarrow>
                 parseMembers m (acc @ [(k, v1)]) (skipWS r4) = Some (v, r)"
      by auto
    have l6: "length (skipWS r4) \<le> length r4" by (rule skipWS_length)
    show ?thesis
    proof (intro conjI allI impI)
      show "length r < length s" using l0 l1 l2 l3 l4 l5 l6 by simp
    next
      fix m assume "length s - length r \<le> m"
      with l0 l1 l2 l3 l4 l5 l6 obtain m' where m: "m = Suc m'"
        and m3: "length (skipWS r2) - length r3 \<le> m'"
        and m5: "length (skipWS r4) - length r \<le> m'"
        by (cases m) auto
      from f3 [OF m3] f5 [OF m5] key colon ws a show "parseMembers m acc s = Some (v, r)"
        by (simp add: m s)
    qed
  next
    assume a: "c = CHR ''}'' \<and> v = JObject (acc @ [(k, v1)]) \<and> r = r4"
    show ?thesis
    proof (intro conjI allI impI)
      show "length r < length s" using l0 l1 l2 l3 l4 a by simp
    next
      fix m assume "length s - length r \<le> m"
      with l0 l1 l2 l3 l4 a obtain m' where m: "m = Suc m'"
        and m3: "length (skipWS r2) - length r3 \<le> m'"
        by (cases m) auto
      from f3 [OF m3] key colon ws a show "parseMembers m acc s = Some (v, r)"
        by (simp add: m s)
    qed
  qed
qed

lemma parseValue_step:
  assumes IHE: "\<And>acc s v r. parseElements n acc s = Some (v, r) \<Longrightarrow>
      length r < length s \<and> (\<forall>m\<ge>length s - length r. parseElements m acc s = Some (v, r))"
    and IHM: "\<And>acc s v r. parseMembers n acc s = Some (v, r) \<Longrightarrow>
      length r < length s \<and> (\<forall>m\<ge>length s - length r. parseMembers m acc s = Some (v, r))"
    and run: "parseValue (Suc n) s = Some (v, r)"
  shows "length r < length s \<and> (\<forall>m\<ge>length s - length r. parseValue m s = Some (v, r))"
proof -
  from run obtain c r0 where s: "s = c # r0" by (cases s) auto
  consider (arr) "c = CHR ''[''" | (obj) "c = CHR ''{''" | (leaf) "c \<noteq> CHR ''[''" "c \<noteq> CHR ''{''"
    by blast
  then show ?thesis
  proof cases
    case arr
    with run s obtain c' r' where ws: "skipWS r0 = c' # r'"
      and alt: "(c' = CHR '']'' \<and> v = JArray [] \<and> r = r')
                \<or> (c' \<noteq> CHR '']'' \<and> parseElements n [] (c' # r') = Some (v, r))"
      by (auto split: list.splits if_splits)
    from ws skipWS_length [of r0] have l0: "Suc (length r') \<le> length r0" by simp
    from alt show ?thesis
    proof
      assume a: "c' = CHR '']'' \<and> v = JArray [] \<and> r = r'"
      show ?thesis
      proof (intro conjI allI impI)
        show "length r < length s" using l0 a s by simp
      next
        fix m assume "length s - length r \<le> m"
        with l0 a s obtain m' where m: "m = Suc m'" by (cases m) auto
        from ws a arr show "parseValue m s = Some (v, r)" by (simp add: m s)
      qed
    next
      assume a: "c' \<noteq> CHR '']'' \<and> parseElements n [] (c' # r') = Some (v, r)"
      then have pe: "parseElements n [] (c' # r') = Some (v, r)" by simp
      from IHE [OF pe] have l1: "length r < length (c' # r')"
        and f1: "\<And>m. length (c' # r') - length r \<le> m \<Longrightarrow> parseElements m [] (c' # r') = Some (v, r)"
        by auto
      show ?thesis
      proof (intro conjI allI impI)
        show "length r < length s" using l0 l1 s by simp
      next
        fix m assume "length s - length r \<le> m"
        with l0 l1 s obtain m' where m: "m = Suc m'" and m1: "length (c' # r') - length r \<le> m'"
          by (cases m) auto
        from f1 [OF m1] ws a arr show "parseValue m s = Some (v, r)" by (simp add: m s)
      qed
    qed
  next
    case obj
    with run s obtain c' r' where ws: "skipWS r0 = c' # r'"
      and alt: "(c' = CHR ''}'' \<and> v = JObject [] \<and> r = r')
                \<or> (c' \<noteq> CHR ''}'' \<and> parseMembers n [] (c' # r') = Some (v, r))"
      by (auto split: list.splits if_splits)
    from ws skipWS_length [of r0] have l0: "Suc (length r') \<le> length r0" by simp
    from alt show ?thesis
    proof
      assume a: "c' = CHR ''}'' \<and> v = JObject [] \<and> r = r'"
      show ?thesis
      proof (intro conjI allI impI)
        show "length r < length s" using l0 a s by simp
      next
        fix m assume "length s - length r \<le> m"
        with l0 a s obtain m' where m: "m = Suc m'" by (cases m) auto
        from ws a obj show "parseValue m s = Some (v, r)" by (simp add: m s)
      qed
    next
      assume a: "c' \<noteq> CHR ''}'' \<and> parseMembers n [] (c' # r') = Some (v, r)"
      then have pe: "parseMembers n [] (c' # r') = Some (v, r)" by simp
      from IHM [OF pe] have l1: "length r < length (c' # r')"
        and f1: "\<And>m. length (c' # r') - length r \<le> m \<Longrightarrow> parseMembers m [] (c' # r') = Some (v, r)"
        by auto
      show ?thesis
      proof (intro conjI allI impI)
        show "length r < length s" using l0 l1 s by simp
      next
        fix m assume "length s - length r \<le> m"
        with l0 l1 s obtain m' where m: "m = Suc m'" and m1: "length (c' # r') - length r \<le> m'"
          by (cases m) auto
        from f1 [OF m1] ws a obj show "parseValue m s = Some (v, r)" by (simp add: m s)
      qed
    qed
  next
    case leaf
    from run s have run': "parseValue (Suc n) (c # r0) = Some (v, r)" by simp
    from parseValue_leaf_length [OF run' leaf] have l: "length r < length s" by (simp add: s)
    show ?thesis
    proof (intro conjI allI impI)
      show "length r < length s" by (rule l)
    next
      fix m assume "length s - length r \<le> m"
      with l obtain m' where m: "m = Suc m'" by (cases m) auto
      from parseValue_leaf_fuel [OF leaf, of m' r0 n] run' show "parseValue m s = Some (v, r)"
        by (simp only: m s)
    qed
  qed
qed

lemma parse_fuel:
  "(\<forall>s v r. parseValue n s = Some (v, r) \<longrightarrow>
      length r < length s \<and> (\<forall>m\<ge>length s - length r. parseValue m s = Some (v, r)))
   \<and> (\<forall>acc s v r. parseElements n acc s = Some (v, r) \<longrightarrow>
      length r < length s \<and> (\<forall>m\<ge>length s - length r. parseElements m acc s = Some (v, r)))
   \<and> (\<forall>acc s v r. parseMembers n acc s = Some (v, r) \<longrightarrow>
      length r < length s \<and> (\<forall>m\<ge>length s - length r. parseMembers m acc s = Some (v, r)))"
proof (induction n)
  case 0
  show ?case by simp
next
  case (Suc n)
  then have IHV: "\<And>s v r. parseValue n s = Some (v, r) \<Longrightarrow>
      length r < length s \<and> (\<forall>m\<ge>length s - length r. parseValue m s = Some (v, r))"
    and IHE: "\<And>acc s v r. parseElements n acc s = Some (v, r) \<Longrightarrow>
      length r < length s \<and> (\<forall>m\<ge>length s - length r. parseElements m acc s = Some (v, r))"
    and IHM: "\<And>acc s v r. parseMembers n acc s = Some (v, r) \<Longrightarrow>
      length r < length s \<and> (\<forall>m\<ge>length s - length r. parseMembers m acc s = Some (v, r))"
    by blast+
  show ?case
  proof (intro conjI allI impI)
  qed (use parseValue_step [OF IHE IHM] parseElements_step [OF IHV IHE] parseMembers_step [OF IHV IHM] in blast)+
qed

lemma parseValue_fuel:
  assumes "parseValue n s = Some (v, r)" and "length s \<le> m"
  shows "parseValue m s = Some (v, r)"
  using parse_fuel [of n] assms by (meson diff_le_self le_trans)

text \<open>
  The fuel that \<open>JSON_parse\<close> gives the parser is enough: a text that parses with some
  fuel parses with the fuel \<open>JSON_parse\<close> uses, so \<open>None\<close> always means a syntax error.
\<close>

lemma JSON_parse_fuel:
  assumes "parseValue n (skipWS s) = Some (v, r)" and "skipWS r = []"
  shows "JSON_parse s = Some v"
proof -
  have "length (skipWS s) \<le> Suc (length s)"
    using skipWS_length [of s] by simp
  from parseValue_fuel [OF assms(1) this] assms(2) show ?thesis
    by (simp add: JSON_parse_def)
qed

lemma JSON_parse_None_fuel:
  assumes "JSON_parse s = None" and "parseValue n (skipWS s) = Some (v, r)"
  shows "skipWS r \<noteq> []"
  using JSON_parse_fuel [OF assms(2)] assms(1) by auto

subsection \<open>Reading back what \<open>JSON.stringify\<close> writes\<close>

lemma hexVal_hexDigit: "d < 16 \<Longrightarrow> hexVal (hexDigit d) = Some d"
proof -
  assume "d < 16"
  then have "d = 0 \<or> d = 1 \<or> d = 2 \<or> d = 3 \<or> d = 4 \<or> d = 5 \<or> d = 6 \<or> d = 7
      \<or> d = 8 \<or> d = 9 \<or> d = 10 \<or> d = 11 \<or> d = 12 \<or> d = 13 \<or> d = 14 \<or> d = 15"
    by arith
  then show ?thesis
    by (elim disjE) (simp_all add: hexDigit_def hexVal_def)
qed

lemma parse_quoteChar:
  "parseStringBody (quoteChar c @ tail) = consChar c (parseStringBody tail)"
proof (cases "c = CHR 0x08 \<or> c = CHR 0x09 \<or> c = CHR 0x0A \<or> c = CHR 0x0C \<or> c = CHR 0x0D
    \<or> c = CHR 0x22 \<or> c = CHR 0x5C")
  case True
  then show ?thesis
    by (elim disjE) (simp_all add: quoteChar_def unescape_def)
next
  case False
  show ?thesis
  proof (cases "(of_char c :: nat) < 32")
    case True
    then have hi: "hexVal (hexDigit (of_char c div 16)) = Some (of_char c div 16)"
      and lo: "hexVal (hexDigit (of_char c mod 16)) = Some (of_char c mod 16)"
      by (simp_all add: hexVal_hexDigit)
    have z: "hexVal CHR ''0'' = Some 0" by (simp add: hexVal_def)
    from False True show ?thesis
      by (simp add: quoteChar_def hi lo z)
  next
    case ge: False
    with False show ?thesis
      by (simp add: quoteChar_def)
  qed
qed

lemma parse_quoted_body:
  "parseStringBody (concat (map quoteChar s) @ CHR 0x22 # rest) = Some (s, rest)"
  by (induction s) (simp_all add: parse_quoteChar consChar_def)

lemma parseValue_quoted:
  "parseValue (Suc n) (quoteJSONString s @ rest) = Some (JString s, rest)"
  by (simp add: quoteJSONString_def parse_quoted_body)

lemma join_Cons: "join sep (x # xs) = x @ concat (map ((@) sep) xs)"
  by (induction xs arbitrary: x) auto

lemma quote_instruction: "quoteJSONString ''instruction'' = CHR 0x22 # ''instruction'' @ [CHR 0x22]"
  by (simp add: quoteJSONString_def quoteChar_def)

lemma quote_input: "quoteJSONString ''input'' = CHR 0x22 # ''input'' @ [CHR 0x22]"
  by (simp add: quoteJSONString_def quoteChar_def)

lemma quote_output: "quoteJSONString ''output'' = CHR 0x22 # ''output'' @ [CHR 0x22]"
  by (simp add: quoteJSONString_def quoteChar_def)

lemma row_text_indented:
  "serializeJSON ''  '' ''  '' (rowToJSON r) =
     ''{'' @ [CHR 0x0A] @ ''    '' @ [CHR 0x22] @ ''instruction'' @ [CHR 0x22] @ '': ''
       @ [CHR 0x22] @ concat (map quoteChar (row_instruction r)) @ [CHR 0x22]
     @ '','' @ [CHR 0x0A] @ ''    '' @ [CHR 0x22] @ ''input'' @ [CHR 0x22] @ '': ''
       @ [CHR 0x22] @ concat (map quoteChar (row_input r)) @ [CHR 0x22]
     @ '','' @ [CHR 0x0A] @ ''    '' @ [CHR 0x22] @ ''output'' @ [CHR 0x22] @ '': ''
       @ [CHR 0x22] @ concat (map quoteChar (row_output r)) @ [CHR 0x22]
     @ [CHR 0x0A] @ ''  '' @ ''}''"
  by (simp add: rowToJSON_def quote_instruction quote_input quote_output)
     (simp add: quoteJSONString_def)

lemma skipWS_Cons: "skipWS (c # s) = (if isJSONWhitespace c then skipWS s else c # s)"
  by (simp add: skipWS_def)

lemma parseValue_row:
  "parseValue (Suc (Suc (Suc (Suc (Suc n))))) (serializeJSON ''  '' ''  '' (rowToJSON r) @ rest)
     = Some (rowToJSON r, rest)"
  by (simp only: row_text_indented)
     (simp add: skipWS_Cons isJSONWhitespace_def parse_quoted_body consChar_def rowToJSON_def)

lemma skipWS_row:
  "skipWS (serializeJSON ''  '' ''  '' (rowToJSON r) @ rest)
     = serializeJSON ''  '' ''  '' (rowToJSON r) @ rest"
  by (simp only: row_text_indented) (simp add: skipWS_Cons isJSONWhitespace_def)

lemma parseElements_rows:
  "parseElements (length rs + 6 + n) acc
     (serializeJSON ''  '' ''  '' (rowToJSON r)
      @ concat (map (\<lambda>x. '','' @ [CHR 0x0A] @ ''  '' @ serializeJSON ''  '' ''  '' (rowToJSON x)) rs)
      @ [CHR 0x0A] @ '']'' @ rest)
   = Some (JArray (acc @ map rowToJSON (r # rs)), rest)"
proof (induction rs arbitrary: r acc)
  case Nil
  have "parseElements (Suc (Suc (Suc (Suc (Suc (Suc n)))))) acc
      (serializeJSON ''  '' ''  '' (rowToJSON r) @ ([CHR 0x0A] @ '']'' @ rest))
    = Some (JArray (acc @ [rowToJSON r]), rest)"
    by (simp only: parseElements.simps parseValue_row)
       (simp add: skipWS_Cons isJSONWhitespace_def)
  then show ?case by (simp add: numeral_eq_Suc)
next
  case (Cons y ys)
  let ?tail = "concat (map (\<lambda>x. '','' @ [CHR 0x0A] @ ''  '' @ serializeJSON ''  '' ''  '' (rowToJSON x)) ys)
      @ [CHR 0x0A] @ '']'' @ rest"
  have step: "parseElements (Suc (length ys + 6 + n)) acc
      (serializeJSON ''  '' ''  '' (rowToJSON r)
        @ ('','' @ [CHR 0x0A] @ ''  '' @ serializeJSON ''  '' ''  '' (rowToJSON y) @ ?tail))
    = parseElements (length ys + 6 + n) (acc @ [rowToJSON r])
        (serializeJSON ''  '' ''  '' (rowToJSON y) @ ?tail)"
  proof -
    have f: "length ys + 6 + n = Suc (Suc (Suc (Suc (Suc (length ys + 1 + n)))))"
      by simp
    have pv: "parseValue (length ys + 6 + n)
        (serializeJSON ''  '' ''  '' (rowToJSON r)
          @ ('','' @ [CHR 0x0A] @ ''  '' @ serializeJSON ''  '' ''  '' (rowToJSON y) @ ?tail))
      = Some (rowToJSON r, '','' @ [CHR 0x0A] @ ''  '' @ serializeJSON ''  '' ''  '' (rowToJSON y) @ ?tail)"
      by (subst f) (rule parseValue_row)
    show ?thesis
      by (simp only: parseElements.simps pv)
         (simp add: skipWS_Cons skipWS_row isJSONWhitespace_def)
  qed
  have "parseElements (length ys + 6 + n) (acc @ [rowToJSON r])
        (serializeJSON ''  '' ''  '' (rowToJSON y) @ ?tail)
      = Some (JArray ((acc @ [rowToJSON r]) @ map rowToJSON (y # ys)), rest)"
    by (rule Cons.IH)
  with step have "parseElements (Suc (length ys + 6 + n)) acc
      (serializeJSON ''  '' ''  '' (rowToJSON r)
        @ ('','' @ [CHR 0x0A] @ ''  '' @ serializeJSON ''  '' ''  '' (rowToJSON y) @ ?tail))
      = Some (JArray ((acc @ [rowToJSON r]) @ map rowToJSON (y # ys)), rest)"
    by (simp only:)
  moreover have "length (y # ys) + 6 + n = Suc (length ys + 6 + n)"
    by simp
  ultimately show ?case
    by (simp only:) simp
qed

lemma skipWS_Nil: "skipWS [] = []"
  by (simp add: skipWS_def)

lemma parseValue_array_open:
  assumes "skipWS body = CHR ''{'' # t" and "parseElements n [] (CHR ''{'' # t) = Some res"
  shows "parseValue (Suc n) (CHR ''['' # body) = Some res"
  using assms by simp

lemma JSON_parse_whole:
  assumes "parseValue (Suc (length s)) s = Some (v, [])" and "skipWS s = s"
  shows "JSON_parse s = Some v"
  using assms by (simp add: JSON_parse_def skipWS_Nil)

lemma JSON_parse_rows:
  "JSON_parse (JSON_stringify_indent2 (JArray (map rowToJSON rows))) = Some (JArray (map rowToJSON rows))"
proof (cases rows)
  case Nil
  then show ?thesis
    by (simp add: JSON_stringify_indent2_def JSON_parse_def skipWS_Cons skipWS_Nil isJSONWhitespace_def)
next
  case (Cons r rs)
  let ?ser = "\<lambda>x. serializeJSON ''  '' ''  '' (rowToJSON x)"
  let ?elems = "?ser r @ concat (map (\<lambda>x. '','' @ [CHR 0x0A] @ ''  '' @ ?ser x) rs) @ [CHR 0x0A] @ '']'' @ []"
  let ?whole = "CHR ''['' # CHR 0x0A # CHR '' '' # CHR '' '' # ?elems"
  have shape: "JSON_stringify_indent2 (JArray (map rowToJSON rows)) = ?whole"
    by (simp add: JSON_stringify_indent2_def Cons join_Cons comp_def)
  have len: "length rs \<le> length (concat (map (\<lambda>x. '','' @ [CHR 0x0A] @ ''  '' @ ?ser x) rs))"
    by (induction rs) auto
  define n where "n = length ?whole - (length rs + 6)"
  have fuel: "length ?whole = length rs + 6 + n"
    unfolding n_def using len by simp
  have el: "parseElements (length rs + 6 + n) [] ?elems = Some (JArray ([] @ map rowToJSON (r # rs)), [])"
    by (rule parseElements_rows)
  have sk: "skipWS (CHR 0x0A # CHR '' '' # CHR '' '' # ?elems) = ?elems"
    using skipWS_row [of r "concat (map (\<lambda>x. '','' @ [CHR 0x0A] @ ''  '' @ ?ser x) rs) @ [CHR 0x0A] @ '']'' @ []"]
    by (simp add: skipWS_Cons isJSONWhitespace_def)
  have "\<exists>t. ?elems = CHR ''{'' # t"
    by (simp add: row_text_indented)
  then obtain t where t: "?elems = CHR ''{'' # t" ..
  from sk have sk': "skipWS (CHR 0x0A # CHR '' '' # CHR '' '' # ?elems) = CHR ''{'' # t"
    by (simp only: t)
  from el have el': "parseElements (length rs + 6 + n) [] (CHR ''{'' # t)
      = Some (JArray ([] @ map rowToJSON (r # rs)), [])"
    by (simp only: t)
  have pv: "parseValue (Suc (length rs + 6 + n)) ?whole
      = Some (JArray ([] @ map rowToJSON (r # rs)), [])"
    using sk' el' by (rule parseValue_array_open)
  have "JSON_parse ?whole = Some (JArray ([] @ map rowToJSON (r # rs)))"
  proof (rule JSON_parse_whole)
    show "parseValue (Suc (length ?whole)) ?whole = Some (JArray ([] @ map rowToJSON (r # rs)), [])"
      using pv by (simp only: fuel)
    show "skipWS ?whole = ?whole"
      by (simp add: skipWS_Cons isJSONWhitespace_def)
  qed
  then show ?thesis
    by (simp only: shape) (simp add: Cons)
qed

subsection \<open>Counting what \<open>convertRowsToFormat\<close> writes\<close>

lemma hexDigit_in: "hexDigit d \<in> set ''0123456789abcdef''"
  unfolding hexDigit_def by (rule nth_mem) simp

lemma newline_notin_quoteChar: "CHR 0x0A \<notin> set (quoteChar c)"
  using hexDigit_in [of "of_char c div 16"] hexDigit_in [of "of_char c mod 16"]
  by (auto simp: quoteChar_def)

lemma newline_notin_quoted: "CHR 0x0A \<notin> set (quoteJSONString s)"
  by (auto simp: quoteJSONString_def newline_notin_quoteChar)

lemma row_text_compact:
  "JSON_stringify (rowToJSON r) =
     CHR ''{'' # quoteJSONString ''instruction'' @ '':'' @ quoteJSONString (row_instruction r)
       @ '','' @ quoteJSONString ''input'' @ '':'' @ quoteJSONString (row_input r)
       @ '','' @ quoteJSONString ''output'' @ '':'' @ quoteJSONString (row_output r) @ ''}''"
  by (simp add: JSON_stringify_def rowToJSON_def)

lemma newline_notin_row: "CHR 0x0A \<notin> set (JSON_stringify (rowToJSON r))"
  by (simp add: row_text_compact newline_notin_quoted)

lemma row_not_blank: "\<not> blank (JSON_stringify (rowToJSON r))"
  by (simp add: row_text_compact blank_def isJSWhitespace_def)

lemma hd_join: "xs \<noteq> [] \<Longrightarrow> hd xs \<noteq> [] \<Longrightarrow> hd (join sep xs) = hd (hd xs)"
  by (cases xs) (simp_all add: join_Cons)

lemma join_snoc: "xs \<noteq> [] \<Longrightarrow> join sep (xs @ [x]) = join sep xs @ sep @ x"
  by (induction sep xs rule: join.induct) auto

lemma last_join: "xs \<noteq> [] \<Longrightarrow> last xs \<noteq> [] \<Longrightarrow> last (join sep xs) = last (last xs)"
proof (cases xs rule: rev_cases)
  case (snoc ys y)
  assume "last xs \<noteq> []"
  with snoc have y: "y \<noteq> []" by simp
  show ?thesis
  proof (cases "ys = []")
    case True
    with snoc show ?thesis by simp
  next
    case False
    with snoc y show ?thesis by (simp add: join_snoc)
  qed
qed simp

lemma join_eq_Nil: "xs \<noteq> [] \<Longrightarrow> hd xs \<noteq> [] \<Longrightarrow> join sep xs \<noteq> []"
  by (cases xs) (simp_all add: join_Cons)

lemma jsonl_count:
  "length (filter (\<lambda>line. trim line \<noteq> [])
     (split (CHR 0x0A) (trim (join [CHR 0x0A] (map (\<lambda>row. JSON_stringify (rowToJSON row)) rows)))))
   = length rows"
proof (cases rows)
  case Nil
  then show ?thesis by (simp add: trim_def)
next
  case (Cons r rs)
  let ?lines = "map (\<lambda>row. JSON_stringify (rowToJSON row)) rows"
  have ne: "?lines \<noteq> []" by (simp add: Cons)
  have first: "hd (hd ?lines) = CHR ''{''" "hd ?lines \<noteq> []"
    by (simp_all add: Cons row_text_compact)
  have "last ?lines = JSON_stringify (rowToJSON (last rows))"
    by (simp add: Cons last_map)
  then have final: "last (last ?lines) = CHR ''}''" "last ?lines \<noteq> []"
    by (simp_all add: row_text_compact)
  have "trim (join [CHR 0x0A] ?lines) = join [CHR 0x0A] ?lines"
  proof (rule trim_id)
    show "join [CHR 0x0A] ?lines \<noteq> []"
      using ne first(2) by (rule join_eq_Nil)
    show "\<not> isJSWhitespace (hd (join [CHR 0x0A] ?lines))"
      using hd_join [OF ne first(2)] first(1) by (simp add: isJSWhitespace_def)
    show "\<not> isJSWhitespace (last (join [CHR 0x0A] ?lines))"
      using last_join [OF ne final(2)] final(1) by (simp add: isJSWhitespace_def)
  qed
  moreover have "split (CHR 0x0A) (join [CHR 0x0A] ?lines) = ?lines"
    using ne by (rule split_join) (auto simp: newline_notin_row)
  moreover have "filter (\<lambda>line. trim line \<noteq> []) ?lines = ?lines"
    by (simp add: trim_eq_Nil_iff row_not_blank)
  ultimately show ?thesis by simp
qed

lemma newline_notin_doubleQuotes: "CHR 0x0A \<notin> set s \<Longrightarrow> CHR 0x0A \<notin> set (doubleQuotes s)"
  by (induction s) (auto simp: doubleQuotes_def)

lemma csvLine_not_blank: "\<not> blank (csvLine r)"
  by (simp add: csvLine_def blank_def isJSWhitespace_def)

lemma csv_count:
  assumes "\<forall>r \<in> set rows. CHR 0x0A \<notin> set (row_instruction r) \<union> set (row_input r) \<union> set (row_output r)"
  shows "length (split (CHR 0x0A) (trim (join [CHR 0x0A] (''instruction,input,output'' # map csvLine rows))))
     = Suc (length rows)"
proof -
  have nl: "\<forall>l \<in> set (''instruction,input,output'' # map csvLine rows). CHR 0x0A \<notin> set l"
    using assms by (auto simp: csvLine_def newline_notin_doubleQuotes)
  have h: "\<not> blank ''instruction,input,output''"
    by (simp add: blank_def isJSWhitespace_def)
  have l: "map csvLine rows \<noteq> [] \<longrightarrow> \<not> blank (last (map csvLine rows))"
    by (simp add: last_map csvLine_not_blank)
  have t: "blank []" by (simp add: blank_def)
  from count_lines_trim [OF nl h l t] show ?thesis
    by (simp add: length_split)
qed

lemma sampleCount_convertRows:
  assumes ext: "fileExtension name = Some (formatName format)"
    and nl: "format = FormatCsv \<longrightarrow>
      (\<forall>r \<in> set rows. CHR 0x0A \<notin> set (row_instruction r) \<union> set (row_input r) \<union> set (row_output r))"
  shows "sampleCount name (convertRowsToFormat rows format) = length rows"
proof (cases format)
  case FormatJson
  with ext show ?thesis
    by (simp add: sampleCount_def convertRowsToFormat_def formatName_def JSON_parse_rows)
next
  case FormatJsonl
  with ext show ?thesis
    by (simp add: sampleCount_def convertRowsToFormat_def formatName_def jsonl_count)
next
  case FormatCsv
  with ext nl show ?thesis
    by (simp add: sampleCount_def convertRowsToFormat_def formatName_def csv_count)
qed

text \<open>
  Claim C2, as stated, fails for the csv format: a row whose field holds a newline is
  written on two lines, since \<^verbatim>\<open>convertRowsToFormat\<close> doubles the quotes of a field but
  leaves its newlines, and the csv branch of \<^verbatim>\<open>parseFileForSampleCount\<close> counts lines.
  One such row is counted as two samples.
\<close>

theorem C2_counterexample:
  "\<not> (\<forall>rows format file.
        fileExtension (file_name file) = Some (formatName format)
        \<and> file_text file = Some (convertRowsToFormat rows format)
        \<longrightarrow> parseFileForSampleCount file = Resolves (length rows))"
proof
  assume a: "\<forall>rows format file.
        fileExtension (file_name file) = Some (formatName format)
        \<and> file_text file = Some (convertRowsToFormat rows format)
        \<longrightarrow> parseFileForSampleCount file = Resolves (length rows)"
  let ?rows = "[\<lparr>row_instruction = ''a\<newline>b'', row_input = [], row_output = []\<rparr>]"
  let ?file = "\<lparr>file_name = ''d.csv'', file_size = 0,
      file_text = Some (convertRowsToFormat ?rows FormatCsv)\<rparr>"
  have "fileExtension (file_name ?file) = Some (formatName FormatCsv)
      \<and> file_text ?file = Some (convertRowsToFormat ?rows FormatCsv)"
    by code_simp
  with a have "parseFileForSampleCount ?file = Resolves (length ?rows)"
    by blast
  moreover have "parseFileForSampleCount ?file = Resolves 2"
    by code_simp
  ultimately show False by simp
qed

text \<open>
  Claim C2, amended. For every list of rows and every format, the create branch of
  \<^verbatim>\<open>handleSaveDataset\<close> stores \<^verbatim>\<open>samples = rows.length\<close> together with the content
  \<^verbatim>\<open>convertRowsToFormat(rows, format)\<close>, and \<^verbatim>\<open>parseFileForSampleCount\<close> on a file of the
  matching extension holding that content resolves to \<^verbatim>\<open>rows.length\<close>, provided that for
  the csv format no field of a row contains a newline. Quotes in fields are harmless in
  all three formats, and newlines in fields are harmless for json and jsonl.
\<close>

theorem C2_count_consistency:
  assumes ext: "fileExtension (file_name file) = Some (formatName format)"
    and content: "file_text file = Some (convertRowsToFormat rows format)"
    and nl: "format = FormatCsv \<longrightarrow>
      (\<forall>r \<in> set rows. CHR 0x0A \<notin> set (row_instruction r) \<union> set (row_input r) \<union> set (row_output r))"
  shows "parseFileForSampleCount file = Resolves (length rows)
     \<and> (\<forall>now today st.
          modalMode st = ModeCreate \<and> datasetName st \<noteq> [] \<and> csvRows st = rows \<and> selectedFormat st = format
          \<longrightarrow> (\<exists>ds. handleSaveDataset now today st = Some ds
                \<and> ds_samples ds = length rows
                \<and> ds_content ds = Some (convertRowsToFormat rows format)))"
proof -
  have "sampleCount (file_name file) (convertRowsToFormat rows format) = length rows"
    using ext nl by (rule sampleCount_convertRows)
  with content have "parseFileForSampleCount file = Resolves (length rows)"
    by (simp add: parseFileForSampleCount_def)
  then show ?thesis
    by (simp add: handleSaveDataset_def Let_def)
qed

theorem C2_witness:
  "parseFileForSampleCount
     \<lparr>file_name = ''d.csv'', file_size = 0,
      file_text = Some (convertRowsToFormat
        [\<lparr>row_instruction = ''say '' @ [CHR 0x22] @ ''hi'' @ [CHR 0x22], row_input = [], row_output = ''hi''\<rparr>,
         \<lparr>row_instruction = ''x'', row_input = ''y'', row_output = ''z''\<rparr>] FormatCsv)\<rparr>
   = Resolves 2
   \<and> (\<exists>ds. handleSaveDataset 5 ''2024-01-01''
          \<lparr>modalMode = ModeCreate, datasetName = ''d'', selectedFormat = FormatCsv,
           csvRows = [\<lparr>row_instruction = ''say '' @ [CHR 0x22] @ ''hi'' @ [CHR 0x22], row_input = [], row_output = ''hi''\<rparr>,
                      \<lparr>row_instruction = ''x'', row_input = ''y'', row_output = ''z''\<rparr>],
           uploadedFile = None\<rparr> = Some ds
        \<and> ds_samples ds = 2)"
proof -
  let ?rows = "[\<lparr>row_instruction = ''say '' @ [CHR 0x22] @ ''hi'' @ [CHR 0x22], row_input = [], row_output = ''hi''\<rparr>,
         \<lparr>row_instruction = ''x'', row_input = ''y'', row_output = ''z''\<rparr>]"
  let ?file = "\<lparr>file_name = ''d.csv'', file_size = 0,
      file_text = Some (convertRowsToFormat ?rows FormatCsv)\<rparr>"
  let ?st = "\<lparr>modalMode = ModeCreate, datasetName = ''d'', selectedFormat = FormatCsv,
           csvRows = ?rows, uploadedFile = None\<rparr>"
  have ext: "fileExtension (file_name ?file) = Some (formatName FormatCsv)"
    by code_simp
  have content: "file_text ?file = Some (convertRowsToFormat ?rows FormatCsv)"
    by simp
  have nl: "FormatCsv = FormatCsv \<longrightarrow>
      (\<forall>r \<in> set ?rows. CHR 0x0A \<notin> set (row_instruction r) \<union> set (row_input r) \<union> set (row_output r))"
    by simp
  have st: "modalMode ?st = ModeCreate \<and> datasetName ?st \<noteq> [] \<and> csvRows ?st = ?rows
      \<and> selectedFormat ?st = FormatCsv"
    by simp
  note inst = C2_count_consistency [OF ext content nl]
  from inst have a: "parseFileForSampleCount ?file = Resolves (length ?rows)" by (rule conjunct1)
  from inst have "\<forall>now today st.
          modalMode st = ModeCreate \<and> datasetName st \<noteq> [] \<and> csvRows st = ?rows \<and> selectedFormat st = FormatCsv
          \<longrightarrow> (\<exists>ds. handleSaveDataset now today st = Some ds
                \<and> ds_samples ds = length ?rows
                \<and> ds_content ds = Some (convertRowsToFormat ?rows FormatCsv))" by (rule conjunct2)
  then have "\<exists>ds. handleSaveDataset 5 ''2024-01-01'' ?st = Some ds
                \<and> ds_samples ds = length ?rows
                \<and> ds_content ds = Some (convertRowsToFormat ?rows FormatCsv)"
    using st by blast
  with a show ?thesis by auto
qed

text \<open>
  Claim C10. For a file that can be read, the promise of \<^verbatim>\<open>parseFileForSampleCount\<close>
  resolves (it neither rejects nor stays pending). A \<^verbatim>\<open>.json\<close> file whose content is
  valid JSON but not an array resolves to 1 (an array resolves to its length), a
  \<^verbatim>\<open>.json\<close> file whose content does not parse resolves to 0, a file whose extension is
  none of json, jsonl and csv resolves to 0, and a \<^verbatim>\<open>.jsonl\<close> file resolves to the number
  of lines of its trimmed content that are not blank.
\<close>

theorem C10_parseFileForSampleCount_total:
  "(file_text file \<noteq> None \<longrightarrow> (\<exists>n. parseFileForSampleCount file = Resolves n))
   \<and> (\<forall>content v. file_text file = Some content \<and> fileExtension (file_name file) = Some ''json''
          \<and> JSON_parse content = Some v \<and> (\<forall>xs. v \<noteq> JArray xs)
        \<longrightarrow> parseFileForSampleCount file = Resolves 1)
   \<and> (\<forall>content xs. file_text file = Some content \<and> fileExtension (file_name file) = Some ''json''
          \<and> JSON_parse content = Some (JArray xs)
        \<longrightarrow> parseFileForSampleCount file = Resolves (length xs))
   \<and> (\<forall>content. file_text file = Some content \<and> fileExtension (file_name file) = Some ''json''
          \<and> JSON_parse content = None
        \<longrightarrow> parseFileForSampleCount file = Resolves 0)
   \<and> (\<forall>content. file_text file = Some content
          \<and> fileExtension (file_name file) \<notin> {Some ''json'', Some ''jsonl'', Some ''csv''}
        \<longrightarrow> parseFileForSampleCount file = Resolves 0)
   \<and> (\<forall>content. file_text file = Some content \<and> fileExtension (file_name file) = Some ''jsonl''
        \<longrightarrow> parseFileForSampleCount file
            = Resolves (length (filter (\<lambda>line. \<not> blank line) (split (CHR 0x0A) (trim content)))))"
proof (intro conjI allI impI)
  assume "file_text file \<noteq> None"
  then show "\<exists>n. parseFileForSampleCount file = Resolves n"
    by (auto simp: parseFileForSampleCount_def)
next
  fix content v
  assume "file_text file = Some content \<and> fileExtension (file_name file) = Some ''json''
      \<and> JSON_parse content = Some v \<and> (\<forall>xs. v \<noteq> JArray xs)"
  then show "parseFileForSampleCount file = Resolves 1"
    by (cases v) (simp_all add: parseFileForSampleCount_def sampleCount_def)
next
  fix content xs
  assume "file_text file = Some content \<and> fileExtension (file_name file) = Some ''json''
      \<and> JSON_parse content = Some (JArray xs)"
  then show "parseFileForSampleCount file = Resolves (length xs)"
    by (simp add: parseFileForSampleCount_def sampleCount_def)
next
  fix content
  assume "file_text file = Some content \<and> fileExtension (file_name file) = Some ''json''
      \<and> JSON_parse content = None"
  then show "parseFileForSampleCount file = Resolves 0"
    by (simp add: parseFileForSampleCount_def sampleCount_def)
next
  fix content
  assume "file_text file = Some content
      \<and> fileExtension (file_name file) \<notin> {Some ''json'', Some ''jsonl'', Some ''csv''}"
  then show "parseFileForSampleCount file = Resolves 0"
    by (simp add: parseFileForSampleCount_def sampleCount_def)
next
  fix content
  assume "file_text file = Some content \<and> fileExtension (file_name file) = Some ''jsonl''"
  then show "parseFileForSampleCount file
      = Resolves (length (filter (\<lambda>line. \<not> blank line) (split (CHR 0x0A) (trim content))))"
    by (simp add: parseFileForSampleCount_def sampleCount_def trim_eq_Nil_iff)
qed

theorem C10_witness:
  "parseFileForSampleCount
     \<lparr>file_name = ''config.json'', file_size = 13,
      file_text = Some (''{'' @ [CHR 0x22] @ ''epochs'' @ [CHR 0x22] @ '': 3}'')\<rparr> = Resolves 1
   \<and> parseFileForSampleCount
     \<lparr>file_name = ''broken.json'', file_size = 9,
      file_text = Some ''[1, 2, 3''\<rparr> = Resolves 0
   \<and> parseFileForSampleCount
     \<lparr>file_name = ''notes.txt'', file_size = 5,
      file_text = Some ''a\<newline>b\<newline>c''\<rparr> = Resolves 0
   \<and> parseFileForSampleCount
     \<lparr>file_name = ''data.jsonl'', file_size = 12,
      file_text = Some ''{}\<newline>\<newline>  \<newline>{}\<newline>''\<rparr> = Resolves 2"
proof -
  let ?f1 = "\<lparr>file_name = ''config.json'', file_size = 13,
      file_text = Some (''{'' @ [CHR 0x22] @ ''epochs'' @ [CHR 0x22] @ '': 3}'')\<rparr>"
  let ?f2 = "\<lparr>file_name = ''broken.json'', file_size = 9, file_text = Some ''[1, 2, 3''\<rparr>"
  let ?f3 = "\<lparr>file_name = ''notes.txt'', file_size = 5, file_text = Some ''a\<newline>b\<newline>c''\<rparr>"
  let ?f4 = "\<lparr>file_name = ''data.jsonl'', file_size = 12,
      file_text = Some ''{}\<newline>\<newline>  \<newline>{}\<newline>''\<rparr>"
  have h1: "file_text ?f1 = Some (''{'' @ [CHR 0x22] @ ''epochs'' @ [CHR 0x22] @ '': 3}'')
      \<and> fileExtension (file_name ?f1) = Some ''json''
      \<and> JSON_parse (''{'' @ [CHR 0x22] @ ''epochs'' @ [CHR 0x22] @ '': 3}'')
          = Some (JObject [(''epochs'', JNumber ''3'')])
      \<and> (\<forall>xs. JObject [(''epochs'', JNumber ''3'')] \<noteq> JArray xs)"
    by (intro conjI) (code_simp, code_simp, code_simp, simp)
  have h2: "file_text ?f2 = Some ''[1, 2, 3'' \<and> fileExtension (file_name ?f2) = Some ''json''
      \<and> JSON_parse ''[1, 2, 3'' = None"
    by code_simp
  have h3: "file_text ?f3 = Some ''a\<newline>b\<newline>c''
      \<and> fileExtension (file_name ?f3) \<notin> {Some ''json'', Some ''jsonl'', Some ''csv''}"
    by code_simp
  have h4: "file_text ?f4 = Some ''{}\<newline>\<newline>  \<newline>{}\<newline>'' \<and> fileExtension (file_name ?f4) = Some ''jsonl''"
    by code_simp
  have c4: "length (filter (\<lambda>line. \<not> blank line) (split (CHR 0x0A) (trim ''{}\<newline>\<newline>  \<newline>{}\<newline>''))) = 2"
    by code_simp
  from C10_parseFileForSampleCount_total [of ?f1] h1 have r1: "parseFileForSampleCount ?f1 = Resolves 1"
    by blast
  from C10_parseFileForSampleCount_total [of ?f2] h2 have r2: "parseFileForSampleCount ?f2 = Resolves 0"
    by blast
  from C10_parseFileForSampleCount_total [of ?f3] h3 have r3: "parseFileForSampleCount ?f3 = Resolves 0"
    by blast
  from C10_parseFileForSampleCount_total [of ?f4] h4 have "parseFileForSampleCount ?f4
      = Resolves (length (filter (\<lambda>line. \<not> blank line) (split (CHR 0x0A) (trim ''{}\<newline>\<newline>  \<newline>{}\<newline>''))))"
    by blast
  with c4 have r4: "parseFileForSampleCount ?f4 = Resolves 2"
    by (simp only:)
  from r1 r2 r3 r4 show ?thesis by (intro conjI)
qed

subsection \<open>Retry and download\<close>

lemma take_jobs_ne: "take n (a @ ''/jobs'') \<noteq> a @ ''/jobs/'' @ x"
proof
  assume "take n (a @ ''/jobs'') = a @ ''/jobs/'' @ x"
  then have "length (take n (a @ ''/jobs'')) = length (a @ ''/jobs/'' @ x)"
    by simp
  then show False by simp
qed

lemma requests_fetchJobs:
  "requests (fetchJobs API_URL jobsReply)
     = [(API_URL @ ''/jobs'', \<lparr>init_method = None, init_headers = [], init_body = None\<rparr>)]"
  by (cases jobsReply)
     (auto simp: fetchJobs_def requests_def getRequest_def List.map_filter_simps split: option.splits)

text \<open>
  Claim C3. Retry is offered exactly for a failed job. Once the user has confirmed the
  dialog, the handler posts one creation request to \<^verbatim>\<open>${API_URL}/jobs\<close> whose body is the
  JSON of exactly three fields, the job's name with the suffix \<^verbatim>\<open> (Retry)\<close>, its model
  and its dataset, followed only by the refresh of the list when the creation succeeded;
  when the dialog is cancelled nothing is requested. In no case does a request of the
  handler mutate the original job: none has a method other than GET and an address at or
  below \<^verbatim>\<open>${API_URL}/jobs/${job.id}\<close>.
\<close>

theorem C3_retry_posts_a_new_job:
  "(ItemRetry \<in> set (actionsMenu (job_status job)) \<longleftrightarrow> job_status job = Failed)
   \<and> (confirmed \<longrightarrow>
        requests (handleRetry API_URL job confirmed reply jobsReply)
          = (API_URL @ ''/jobs'',
             \<lparr>init_method = Some ''POST'',
              init_headers = [(''Content-Type'', ''application/json'')],
              init_body = Some (JSON_stringify
                (JObject [(''name'', JString (job_name job @ '' (Retry)'')),
                          (''model'', JString (job_model job)),
                          (''dataset'', JString (job_dataset job))]))\<rparr>)
            # (case reply of
                 Ok _ \<Rightarrow> [(API_URL @ ''/jobs'', \<lparr>init_method = None, init_headers = [], init_body = None\<rparr>)]
               | _ \<Rightarrow> []))
   \<and> (\<not> confirmed \<longrightarrow> requests (handleRetry API_URL job confirmed reply jobsReply) = [])
   \<and> (\<forall>req \<in> set (requests (handleRetry API_URL job confirmed reply jobsReply)).
        \<not> mutatesJob API_URL (job_id job) req)"
proof -
  have menu: "ItemRetry \<in> set (actionsMenu (job_status job)) \<longleftrightarrow> job_status job = Failed"
    by (cases "job_status job") (simp_all add: actionsMenu_def)
  have rq: "requests (e # es) = (case requestOf e of None \<Rightarrow> requests es | Some r \<Rightarrow> r # requests es)"
    for e es
    by (cases "requestOf e") (simp_all add: requests_def List.map_filter_simps)
  have rq_app: "requests (es @ es') = requests es @ requests es'" for es es'
    by (simp add: requests_def List.map_filter_def)
  have rq_nil: "requests [] = []"
    by (simp add: requests_def List.map_filter_simps)
  have yes: "requests (handleRetry API_URL job True reply jobsReply)
          = (API_URL @ ''/jobs'',
             \<lparr>init_method = Some ''POST'',
              init_headers = [(''Content-Type'', ''application/json'')],
              init_body = Some (JSON_stringify
                (JObject [(''name'', JString (job_name job @ '' (Retry)'')),
                          (''model'', JString (job_model job)),
                          (''dataset'', JString (job_dataset job))]))\<rparr>)
            # (case reply of
                 Ok _ \<Rightarrow> [(API_URL @ ''/jobs'', \<lparr>init_method = None, init_headers = [], init_body = None\<rparr>)]
               | _ \<Rightarrow> [])"
    by (cases reply)
       (auto simp: handleRetry_def postJSON_def newJobData_def rq rq_app rq_nil requests_fetchJobs
             split: option.splits)
  have no: "requests (handleRetry API_URL job False reply jobsReply) = []"
    by (simp add: handleRetry_def rq rq_nil)
  have safe: "\<not> mutatesJob API_URL (job_id job) req"
    if "req \<in> set (requests (handleRetry API_URL job confirmed reply jobsReply))" for req
  proof (cases confirmed)
    case False
    with that no show ?thesis by simp
  next
    case True
    with that yes have "fst req = API_URL @ ''/jobs''"
      by (cases reply) (auto split: option.splits)
    then show ?thesis
      using take_jobs_ne [of _ API_URL]
      by (cases req) (auto simp: mutatesJob_def)
  qed
  from menu yes no safe show ?thesis
    by (cases confirmed) auto
qed

theorem C3_witness:
  "ItemRetry \<in> set (actionsMenu Failed)
   \<and> requests (handleRetry ''http://localhost:8000/api''
        \<lparr>job_id = ''job-7'', job_name = ''t1'', job_model = ''m1'', job_dataset = ''d1'',
         job_status = Failed, job_progress = 40, job_createdAt = ''2025-11-01'', job_duration = ''3m''\<rparr>
        True (Ok None) (Ok (Some None)))
     = [(''http://localhost:8000/api/jobs'',
         \<lparr>init_method = Some ''POST'',
          init_headers = [(''Content-Type'', ''application/json'')],
          init_body = Some (JSON_stringify
            (JObject [(''name'', JString ''t1 (Retry)''),
                      (''model'', JString ''m1''),
                      (''dataset'', JString ''d1'')]))\<rparr>),
        (''http://localhost:8000/api/jobs'',
         \<lparr>init_method = None, init_headers = [], init_body = None\<rparr>)]"
  using C3_retry_posts_a_new_job [where confirmed = True and API_URL = "''http://localhost:8000/api''"
      and reply = "Ok None" and jobsReply = "Ok (Some None)" and job =
        "\<lparr>job_id = ''job-7'', job_name = ''t1'', job_model = ''m1'', job_dataset = ''d1'',
         job_status = Failed, job_progress = 40, job_createdAt = ''2025-11-01'', job_duration = ''3m''\<rparr>"]
  by simp

lemma fileNames_Cons:
  "fileNames (e # es) = (case savedAs e of None \<Rightarrow> fileNames es | Some n \<Rightarrow> n # fileNames es)"
  by (cases "savedAs e") (simp_all add: fileNames_def List.map_filter_simps)

lemma fileNames_Nil: "fileNames [] = []"
  by (simp add: fileNames_def List.map_filter_simps)

text \<open>
  Claim C4, as stated, fails in both download paths: the file name ends in \<^verbatim>\<open>.json\<close>,
  and the job detail page takes the job's name, not its id, whenever the name is known
  and not empty.
\<close>

theorem C4_counterexample:
  "fileNames (handleDownload ''http://localhost:8000/api''
      \<lparr>job_id = ''job-7'', job_name = ''t1'', job_model = ''m1'', job_dataset = ''d1'',
       job_status = Completed, job_progress = 100, job_createdAt = ''2025-11-01'', job_duration = ''3m''\<rparr>
      (Ok (Some (Some [\<lparr>cp_id = ''ckpt-2'', cp_epoch = 1, cp_step = 20, cp_loss = ''0.41'',
                         cp_timestamp = ''2025-11-01T10:00:00'', cp_file_path = ''/tmp/ckpt-2'',
                         cp_file_size_mb = ''12.5''\<rparr>]))))
     = [''job-7-checkpoint-20.json'']
   \<and> ''job-7-checkpoint-20.json'' \<noteq> ''job-7'' @ ''-checkpoint-'' @ numberToString 20
   \<and> fileNames (handleDownloadCheckpoint ''http://localhost:8000/api'' ''blob:1''
        (Some \<lparr>info_id = ''job-7'', info_name = ''t1'', info_model = ''m1'', info_dataset = ''d1'',
               info_status = Completed\<rparr>)
        ''job-7'' ''ckpt-2'' 20 (Ok (Some ())))
     = [''t1-checkpoint-20.json'']
   \<and> ''t1-checkpoint-20.json'' \<noteq> ''job-7'' @ ''-checkpoint-'' @ numberToString 20"
  by code_simp

text \<open>
  Claim C4, amended. The Download action of the jobs list saves the last checkpoint of
  the list under \<^verbatim>\<open>{jobId}-checkpoint-{step}.json\<close>, with the job's id and that
  checkpoint's step. The Download button of the job detail page saves a checkpoint under
  \<^verbatim>\<open>{name}-checkpoint-{step}.json\<close>, where the name is the loaded job's name, or the job id
  when the job info is not loaded or its name is empty. Nothing is saved when the request
  fails or there is no checkpoint.
\<close>

theorem C4_download_file_names:
  "fileNames (handleDownload API_URL job reply)
     = (case reply of
          Ok (Some (Some (c # cs))) \<Rightarrow>
            [job_id job @ ''-checkpoint-'' @ numberToString (cp_step (last (c # cs))) @ ''.json'']
        | _ \<Rightarrow> [])
   \<and> fileNames (handleDownloadCheckpoint API_URL blobUrl jobInfo jobId checkpointId step reply')
     = (case reply' of
          Ok (Some _) \<Rightarrow>
            [(case jobInfo of
                None \<Rightarrow> jobId
              | Some info \<Rightarrow> if info_name info = [] then jobId else info_name info)
             @ ''-checkpoint-'' @ numberToString step @ ''.json'']
        | _ \<Rightarrow> [])"
proof
  show "fileNames (handleDownload API_URL job reply)
     = (case reply of
          Ok (Some (Some (c # cs))) \<Rightarrow>
            [job_id job @ ''-checkpoint-'' @ numberToString (cp_step (last (c # cs))) @ ''.json'']
        | _ \<Rightarrow> [])"
    by (simp add: handleDownload_def getRequest_def fileNames_Cons fileNames_Nil Let_def
          split: Reply.splits option.splits list.splits)
  show "fileNames (handleDownloadCheckpoint API_URL blobUrl jobInfo jobId checkpointId step reply')
     = (case reply' of
          Ok (Some _) \<Rightarrow>
            [(case jobInfo of
                None \<Rightarrow> jobId
              | Some info \<Rightarrow> if info_name info = [] then jobId else info_name info)
             @ ''-checkpoint-'' @ numberToString step @ ''.json'']
        | _ \<Rightarrow> [])"
    by (simp add: handleDownloadCheckpoint_def getRequest_def fileNames_Cons fileNames_Nil
          downloadBaseName_def split: Reply.splits option.splits)
qed

theorem C4_witness:
  "fileNames (handleDownload ''http://localhost:8000/api''
      \<lparr>job_id = ''job-7'', job_name = ''t1'', job_model = ''m1'', job_dataset = ''d1'',
       job_status = Completed, job_progress = 100, job_createdAt = ''2025-11-01'', job_duration = ''3m''\<rparr>
      (Ok (Some (Some [\<lparr>cp_id = ''ckpt-1'', cp_epoch = 1, cp_step = 10, cp_loss = ''0.52'',
                         cp_timestamp = ''2025-11-01T09:00:00'', cp_file_path = ''/tmp/ckpt-1'',
                         cp_file_size_mb = ''12.5''\<rparr>,
                       \<lparr>cp_id = ''ckpt-2'', cp_epoch = 1, cp_step = 20, cp_loss = ''0.41'',
                         cp_timestamp = ''2025-11-01T10:00:00'', cp_file_path = ''/tmp/ckpt-2'',
                         cp_file_size_mb = ''12.5''\<rparr>]))))
     = [''job-7-checkpoint-'' @ numberToString 20 @ ''.json'']
   \<and> fileNames (handleDownloadCheckpoint ''http://localhost:8000/api'' ''blob:1''
        (Some \<lparr>info_id = ''job-7'', info_name = [], info_model = ''m1'', info_dataset = ''d1'',
               info_status = Completed\<rparr>)
        ''job-7'' ''ckpt-2'' 20 (Ok (Some ())))
     = [''job-7-checkpoint-'' @ numberToString 20 @ ''.json'']"
  using C4_download_file_names [where API_URL = "''http://localhost:8000/api''" and blobUrl = "''blob:1''"
      and jobId = "''job-7''" and checkpointId = "''ckpt-2''" and step = 20
      and reply' = "Ok (Some ())"
      and jobInfo = "Some \<lparr>info_id = ''job-7'', info_name = [], info_model = ''m1'', info_dataset = ''d1'',
               info_status = Completed\<rparr>"
      and job = "\<lparr>job_id = ''job-7'', job_name = ''t1'', job_model = ''m1'', job_dataset = ''d1'',
       job_status = Completed, job_progress = 100, job_createdAt = ''2025-11-01'', job_duration = ''3m''\<rparr>"
      and reply = "Ok (Some (Some [\<lparr>cp_id = ''ckpt-1'', cp_epoch = 1, cp_step = 10, cp_loss = ''0.52'',
                         cp_timestamp = ''2025-11-01T09:00:00'', cp_file_path = ''/tmp/ckpt-1'',
                         cp_file_size_mb = ''12.5''\<rparr>,
                       \<lparr>cp_id = ''ckpt-2'', cp_epoch = 1, cp_step = 20, cp_loss = ''0.41'',
                         cp_timestamp = ''2025-11-01T10:00:00'', cp_file_path = ''/tmp/ckpt-2'',
                         cp_file_size_mb = ''12.5''\<rparr>]))"]
  by simp

subsection \<open>Errors of the API client\<close>

lemma apiRequest_response:
  assumes "fst (fetchWithRetry fetch (requestUrl API_URL endpoint options) (requestOptions options)) = Inr response"
  shows "fst (apiRequest fetch API_URL endpoint options) =
     (if \<not> resp_ok response then
        (case response_json response False of
           (Inr errorData, used) \<Rightarrow> Inl (apiErrorOf errorData response)
         | (Inl _, used) \<Rightarrow>
             (case response_text response used of
                (Inr errorData, _) \<Rightarrow> Inl (apiErrorOf (JString errorData) response)
              | (Inl error, _) \<Rightarrow> Inl error))
      else
        (case response_json response False of
           (Inr data, _) \<Rightarrow> Inr data
         | (Inl _, _) \<Rightarrow> Inr (JObject [])))"
  using assms
  by (cases "fetchWithRetry fetch (requestUrl API_URL endpoint options) (requestOptions options)")
     (auto simp: apiRequest_def split: prod.splits sum.splits)

text \<open>
  When the body of a response that is not ok is not JSON, \<^verbatim>\<open>response.json()\<close> has
  consumed it before it throws, and the \<^verbatim>\<open>response.text()\<close> of the \<^verbatim>\<open>catch\<close> rejects: the
  TypeError of the second read leaves \<^verbatim>\<open>apiRequest\<close>, not an \<^verbatim>\<open>ApiError\<close>.
\<close>

lemma apiRequest_error_body_not_JSON:
  assumes "fst (fetchWithRetry fetch (requestUrl API_URL endpoint options) (requestOptions options)) = Inr response"
    and "\<not> resp_ok response" and "resp_body response = Some b" and "JSON_parse b = None"
  shows "fst (apiRequest fetch API_URL endpoint options) = Inl (TypeError ''body stream already read'')"
  using assms(2-4)
  by (simp add: apiRequest_response [OF assms(1)] response_json_def response_text_def)


lemma apiErrorOf_not_convertible:
  "toStringJS (chosenMessage errorData response) = None \<Longrightarrow>
   apiErrorOf errorData response = TypeError ''Cannot convert object to primitive value''"
  by (simp add: apiErrorOf_def)

lemma chosenMessage_detail:
  "optionalProp errorData ''detail'' = Some d \<Longrightarrow> truthy (Some d) \<Longrightarrow>
   chosenMessage errorData response = d"
  by (simp add: chosenMessage_def orElse_def)



lemma apiRequest_detail_not_convertible:
  assumes "fst (fetchWithRetry fetch (requestUrl API_URL endpoint options) (requestOptions options)) = Inr response"
    and "\<not> resp_ok response" and "resp_body response = Some b" and "JSON_parse b = Some errorData"
    and "optionalProp errorData ''detail'' = Some d" and "truthy (Some d)" and "toStringJS d = None"
  shows "fst (apiRequest fetch API_URL endpoint options)
     = Inl (TypeError ''Cannot convert object to primitive value'')"
  using assms(2-4) assms(7)
  by (simp add: apiRequest_response [OF assms(1)] response_json_def apiErrorOf_not_convertible
      chosenMessage_detail [OF assms(5) assms(6)])




subsection \<open>Polling\<close>

lemma runEffect_timer: "timerInstalled (fst (runEffect API_URL jobId st))"
  by (simp add: runEffect_def timerInstalled_def)

lemma pageStep_timer:
  "timerInstalled st \<Longrightarrow> timerInstalled (fst (pageStep API_URL jobId st inp))"
  by (cases inp)
     (auto simp: pageStep_def Let_def runEffect_def timerInstalled_def split: option.splits)

lemma pageRun_timer:
  "timerInstalled st \<Longrightarrow> timerInstalled (pageRun API_URL jobId st inps)"
  by (induction inps arbitrary: st) (simp_all add: pageStep_timer)

lemma mounted_timer: "timerInstalled (pageRun API_URL jobId initialPage (Mount # inps))"
  by (simp add: pageRun_timer pageStep_def runEffect_timer)

lemma hookInv_initial: "hookInv initialHook"
  by (simp add: hookInv_def initialHook_def)

lemma hookCleanup_alive: "hookInv st \<Longrightarrow> hook_alive (hookCleanup st) = []"
  by (auto simp: hookInv_def hookCleanup_def clearInterval_def split: option.splits if_splits)

lemma hookCleanup_next: "hook_next (hookCleanup st) = hook_next st"
  by (simp add: hookCleanup_def)

lemma hookCleanup_ref: "hook_ref (hookCleanup st) = hook_ref st"
  by (simp add: hookCleanup_def)

lemma hookInv_ref: "hookInv st \<Longrightarrow> hook_ref st \<noteq> Some 0"
  by (auto simp: hookInv_def split: option.splits if_splits)

lemma hookRender_same:
  "hook_deps st = Some (depsOf args) \<Longrightarrow> hookRender st args = (st, 0)"
  by (simp add: hookRender_def)

lemma hookRender_changed_enabled:
  assumes "hookInv st" and "hook_deps st \<noteq> Some (depsOf args)" and "fst (depsOf args)"
  shows "snd (hookRender st args) = 1"
    and "hook_alive (fst (hookRender st args)) = [(hook_next st, snd (depsOf args))]"
    and "hook_ref (fst (hookRender st args)) = Some (hook_next st)"
    and "hook_cleanup (fst (hookRender st args))"
    and "hook_next (fst (hookRender st args)) = Suc (hook_next st)"
    and "hook_deps (fst (hookRender st args)) = Some (depsOf args)"
  using assms hookCleanup_alive [OF assms(1)]
  by (simp_all add: hookRender_def hookEffect_def hookCleanup_next)

lemma hookRender_changed_disabled:
  assumes "hookInv st" and "hook_deps st \<noteq> Some (depsOf args)" and "\<not> fst (depsOf args)"
  shows "snd (hookRender st args) = 0"
    and "hook_alive (fst (hookRender st args)) = []"
    and "hook_ref (fst (hookRender st args)) = None"
    and "\<not> hook_cleanup (fst (hookRender st args))"
    and "hook_next (fst (hookRender st args)) = hook_next st"
    and "hook_deps (fst (hookRender st args)) = Some (depsOf args)"
  using assms hookCleanup_alive [OF assms(1)] hookInv_ref [OF assms(1)]
  by (auto simp: hookRender_def hookEffect_def hookCleanup_next hookCleanup_ref clearInterval_def
      split: option.splits)

lemma hookRender_deps: "hook_deps (fst (hookRender st args)) = Some (depsOf args)"
  by (simp add: hookRender_def hookEffect_def)

lemma hookRender_inv:
  assumes "hookInv st"
  shows "hookInv (fst (hookRender st args))"
proof (cases "hook_deps st = Some (depsOf args)")
  case True
  with assms show ?thesis by (simp add: hookRender_same)
next
  case changed: False
  from assms have pos: "0 < hook_next st" by (simp add: hookInv_def)
  show ?thesis
  proof (cases "fst (depsOf args)")
    case True
    from hookRender_changed_enabled [OF assms changed True] pos True show ?thesis
      by (cases "depsOf args") (simp add: hookInv_def)
  next
    case False
    from hookRender_changed_disabled [OF assms changed False] pos False show ?thesis
      by (cases "depsOf args") (simp add: hookInv_def)
  qed
qed

lemma hookRun_inv: "hookInv st \<Longrightarrow> hookInv (hookRun st argss)"
  by (induction argss arbitrary: st) (simp_all add: hookRender_inv)

lemma hookRun_snoc: "hookRun st (argss @ [args]) = fst (hookRender (hookRun st argss) args)"
  by (induction argss arbitrary: st) simp_all

lemma hookRun_deps:
  "hook_deps (hookRun initialHook argss) = (if argss = [] then None else Some (depsOf (last argss)))"
proof (cases argss rule: rev_cases)
  case Nil
  then show ?thesis by (simp add: initialHook_def)
next
  case (snoc init args)
  then show ?thesis by (simp add: hookRun_snoc hookRender_deps)
qed

lemma hookInv_disabled:
  "hookInv st \<Longrightarrow> hook_deps st = Some (False, interval) \<Longrightarrow> hook_alive st = []"
  by (simp add: hookInv_def)

lemma hookInv_enabled:
  "hookInv st \<Longrightarrow> hook_deps st = Some (True, interval) \<Longrightarrow>
   \<exists>i. hook_alive st = [(i, interval)] \<and> hook_ref st = Some i"
  by (auto simp: hookInv_def)

lemma hookRender_disabled:
  assumes "hookInv st"
  shows "hook_alive (fst (hookRender st (Some False, interval))) = []
     \<and> snd (hookRender st (Some False, interval)) = 0"
proof (cases "hook_deps st = Some (depsOf (Some False, interval))")
  case True
  with assms hookInv_disabled [OF assms, of "intervalOf interval"] show ?thesis
    by (simp add: hookRender_same depsOf_def enabledOf_def)
next
  case False
  from hookRender_changed_disabled [OF assms False] show ?thesis
    by (simp add: depsOf_def enabledOf_def)
qed

lemma hookRender_enabled_alive:
  assumes "hookInv st" and "enabledOf enabled"
  shows "\<exists>i. hook_alive (fst (hookRender st (enabled, interval))) = [(i, intervalOf interval)]"
proof (cases "hook_deps st = Some (depsOf (enabled, interval))")
  case True
  with assms hookInv_enabled [OF assms(1), of "intervalOf interval"] show ?thesis
    by (auto simp: hookRender_same depsOf_def)
next
  case False
  from hookRender_changed_enabled(2) [OF assms(1) False] assms(2) show ?thesis
    by (simp add: depsOf_def)
qed

text \<open>
  Claim C8, as stated, fails in its second part: the tick is guarded by the page's
  \<^verbatim>\<open>isTraining\<close>, which only an answer to \<^verbatim>\<open>fetchJobInfo\<close> writes, and the ticks do not
  call \<^verbatim>\<open>fetchJobInfo\<close>. A job that was running when the page asked and has completed
  since is still polled.
\<close>

theorem C8_counterexample:
  "info_status (world_job (worldRun ''http://localhost:8000/api''
       \<lparr>world_job = \<lparr>info_id = ''job-7'', info_name = ''t1'', info_model = ''m1'',
                      info_dataset = ''d1'', info_status = Running\<rparr>,
        world_page = initialPage\<rparr>
       [PageMounts, InfoAnswered True, TimerFires, StatusBecomes Completed])) = Completed
   \<and> snd (worldStep ''http://localhost:8000/api''
       (worldRun ''http://localhost:8000/api''
         \<lparr>world_job = \<lparr>info_id = ''job-7'', info_name = ''t1'', info_model = ''m1'',
                        info_dataset = ''d1'', info_status = Running\<rparr>,
          world_page = initialPage\<rparr>
         [PageMounts, InfoAnswered True, TimerFires, StatusBecomes Completed])
       TimerFires)
     = [getRequest ''http://localhost:8000/api/jobs/job-7/metrics'',
        getRequest ''http://localhost:8000/api/jobs/job-7/logs'']"
  by code_simp

text \<open>
  Claim C8, amended. Once mounted, the job detail page has an interval of exactly 3000 ms
  whose tick refetches the metrics and the logs when the page's \<^verbatim>\<open>isTraining\<close> is set and
  fetches nothing when it is not. \<^verbatim>\<open>isTraining\<close> is true at the start, each answer to the
  job info request sets it to whether the status in that answer is running, and neither
  a failed job info request nor a tick changes it. The hook \<^verbatim>\<open>useApiPolling\<close> defaults to
  an interval of 3000 ms and to enabled. Rendered enabled for the first time, or after a
  render with another value of \<^verbatim>\<open>enabled\<close> or of \<^verbatim>\<open>interval\<close>, it executes once at once and
  installs a new interval; rendered again with the same two values it executes nothing
  and changes nothing; in both cases exactly one interval is alive afterwards, of the
  given period. Rendered disabled it executes nothing and leaves no interval alive, so
  that no tick executes anything afterwards.
\<close>

theorem C8_polling_cadence:
  "page_timer (pageRun API_URL jobId initialPage (Mount # inps))
     = Some (3000, page_isTraining (pageRun API_URL jobId initialPage (Mount # inps)))
   \<and> snd (pageStep API_URL jobId (pageRun API_URL jobId initialPage (Mount # inps)) Tick)
     = (if page_isTraining (pageRun API_URL jobId initialPage (Mount # inps))
        then [getRequest (API_URL @ ''/jobs/'' @ jobId @ ''/metrics''),
              getRequest (API_URL @ ''/jobs/'' @ jobId @ ''/logs'')]
        else [])
   \<and> page_isTraining initialPage
   \<and> page_isTraining (fst (pageStep API_URL jobId st (InfoArrives (Some data))))
     = (info_status data = Running)
   \<and> page_isTraining (fst (pageStep API_URL jobId st (InfoArrives None))) = page_isTraining st
   \<and> page_isTraining (fst (pageStep API_URL jobId st Tick)) = page_isTraining st
   \<and> intervalOf None = 3000
   \<and> enabledOf None
   \<and> (enabledOf enabled \<and> (argss = [] \<or> depsOf (last argss) \<noteq> depsOf (enabled, interval)) \<longrightarrow>
        snd (hookRender (hookRun initialHook argss) (enabled, interval)) = 1
        \<and> hook_alive (fst (hookRender (hookRun initialHook argss) (enabled, interval)))
          = [(hook_next (hookRun initialHook argss), intervalOf interval)])
   \<and> (argss \<noteq> [] \<and> depsOf (last argss) = depsOf (enabled, interval) \<longrightarrow>
        hookRender (hookRun initialHook argss) (enabled, interval) = (hookRun initialHook argss, 0))
   \<and> (enabledOf enabled \<longrightarrow>
        (\<exists>i. hook_alive (fst (hookRender (hookRun initialHook argss) (enabled, interval)))
              = [(i, intervalOf interval)]))
   \<and> snd (hookRender (hookRun initialHook argss) (Some False, interval)) = 0
   \<and> hook_alive (fst (hookRender (hookRun initialHook argss) (Some False, interval))) = []
   \<and> (\<forall>i. hookTick (fst (hookRender (hookRun initialHook argss) (Some False, interval))) i = 0)"
proof -
  let ?st = "pageRun API_URL jobId initialPage (Mount # inps)"
  have t: "page_timer ?st = Some (3000, page_isTraining ?st)"
    using mounted_timer [of API_URL jobId inps] by (simp only: timerInstalled_def)
  have tick: "snd (pageStep API_URL jobId ?st Tick)
     = (if page_isTraining ?st
        then [getRequest (API_URL @ ''/jobs/'' @ jobId @ ''/metrics''),
              getRequest (API_URL @ ''/jobs/'' @ jobId @ ''/logs'')]
        else [])"
    by (simp only: pageStep_def PageInput.case t snd_conv option.case prod.case tickFetches_def)
  have init: "page_isTraining initialPage"
    by (simp add: initialPage_def)
  have info: "page_isTraining (fst (pageStep API_URL jobId st (InfoArrives (Some data))))
     = (info_status data = Running)"
    by (simp add: pageStep_def Let_def runEffect_def)
  have keep1: "page_isTraining (fst (pageStep API_URL jobId st (InfoArrives None))) = page_isTraining st"
    by (simp add: pageStep_def)
  have keep2: "page_isTraining (fst (pageStep API_URL jobId st Tick)) = page_isTraining st"
    by (simp add: pageStep_def)
  let ?h = "hookRun initialHook argss"
  have inv: "hookInv ?h"
    by (rule hookRun_inv) (rule hookInv_initial)
  have dflt: "intervalOf None = 3000" "enabledOf None"
    by (simp_all add: intervalOf_def enabledOf_def)
  have on: "snd (hookRender ?h (enabled, interval)) = 1
        \<and> hook_alive (fst (hookRender ?h (enabled, interval))) = [(hook_next ?h, intervalOf interval)]"
    if "enabledOf enabled" "argss = [] \<or> depsOf (last argss) \<noteq> depsOf (enabled, interval)"
  proof -
    from that(2) have changed: "hook_deps ?h \<noteq> Some (depsOf (enabled, interval))"
      by (auto simp: hookRun_deps)
    from that(1) have en: "fst (depsOf (enabled, interval))"
      by (simp add: depsOf_def)
    from hookRender_changed_enabled(1,2) [OF inv changed en] show ?thesis
      by (simp add: depsOf_def)
  qed
  have same: "hookRender ?h (enabled, interval) = (?h, 0)"
    if "argss \<noteq> []" "depsOf (last argss) = depsOf (enabled, interval)"
    using that by (simp add: hookRender_same hookRun_deps)
  have one: "\<exists>i. hook_alive (fst (hookRender ?h (enabled, interval))) = [(i, intervalOf interval)]"
    if "enabledOf enabled"
    using inv that by (rule hookRender_enabled_alive)
  have off: "hook_alive (fst (hookRender ?h (Some False, interval))) = []"
    "snd (hookRender ?h (Some False, interval)) = 0"
    using hookRender_disabled [OF inv, of interval] by simp_all
  then have quiet: "hookTick (fst (hookRender ?h (Some False, interval))) i = 0" for i
    by (simp add: hookTick_def)
  have page: "page_timer ?st = Some (3000, page_isTraining ?st)
     \<and> snd (pageStep API_URL jobId ?st Tick)
       = (if page_isTraining ?st
          then [getRequest (API_URL @ ''/jobs/'' @ jobId @ ''/metrics''),
                getRequest (API_URL @ ''/jobs/'' @ jobId @ ''/logs'')]
          else [])
     \<and> page_isTraining initialPage
     \<and> page_isTraining (fst (pageStep API_URL jobId st (InfoArrives (Some data))))
       = (info_status data = Running)
     \<and> page_isTraining (fst (pageStep API_URL jobId st (InfoArrives None))) = page_isTraining st
     \<and> page_isTraining (fst (pageStep API_URL jobId st Tick)) = page_isTraining st"
    using t tick init info keep1 keep2 by (intro conjI)
  have hook: "intervalOf None = 3000
     \<and> enabledOf None
     \<and> (enabledOf enabled \<and> (argss = [] \<or> depsOf (last argss) \<noteq> depsOf (enabled, interval)) \<longrightarrow>
          snd (hookRender ?h (enabled, interval)) = 1
          \<and> hook_alive (fst (hookRender ?h (enabled, interval))) = [(hook_next ?h, intervalOf interval)])
     \<and> (argss \<noteq> [] \<and> depsOf (last argss) = depsOf (enabled, interval) \<longrightarrow>
          hookRender ?h (enabled, interval) = (?h, 0))
     \<and> (enabledOf enabled \<longrightarrow>
          (\<exists>i. hook_alive (fst (hookRender ?h (enabled, interval))) = [(i, intervalOf interval)]))
     \<and> snd (hookRender ?h (Some False, interval)) = 0
     \<and> hook_alive (fst (hookRender ?h (Some False, interval))) = []
     \<and> (\<forall>i. hookTick (fst (hookRender ?h (Some False, interval))) i = 0)"
    using dflt on same one off quiet by blast
  from page hook show ?thesis
    by (elim conjE) (intro conjI; assumption)
qed

theorem C8_witness:
  "page_timer (pageRun ''http://localhost:8000/api'' ''job-7'' initialPage
        [Mount, InfoArrives (Some \<lparr>info_id = ''job-7'', info_name = ''t1'', info_model = ''m1'',
                                    info_dataset = ''d1'', info_status = Completed\<rparr>)])
     = Some (3000, False)
   \<and> snd (pageStep ''http://localhost:8000/api'' ''job-7''
        (pageRun ''http://localhost:8000/api'' ''job-7'' initialPage
           [Mount, InfoArrives (Some \<lparr>info_id = ''job-7'', info_name = ''t1'', info_model = ''m1'',
                                       info_dataset = ''d1'', info_status = Completed\<rparr>)])
        Tick) = []
   \<and> snd (hookRender (hookRun initialHook [(None, None)]) (Some True, Some 5000)) = 1
   \<and> hook_alive (fst (hookRender (hookRun initialHook [(None, None)]) (Some True, Some 5000)))
     = [(2, 5000)]
   \<and> hookRender (hookRun initialHook [(None, None)]) (Some True, Some 3000)
     = (hookRun initialHook [(None, None)], 0)
   \<and> hook_alive (hookRun initialHook [(None, None)]) = [(1, 3000)]
   \<and> hook_alive (fst (hookRender (hookRun initialHook [(None, None)]) (Some False, None))) = []"
proof -
  let ?data = "\<lparr>info_id = ''job-7'', info_name = ''t1'', info_model = ''m1'',
      info_dataset = ''d1'', info_status = Completed\<rparr>"
  let ?st = "pageRun ''http://localhost:8000/api'' ''job-7'' initialPage [Mount, InfoArrives (Some ?data)]"
  let ?h = "hookRun initialHook [(None, None)]"
  note inst = C8_polling_cadence [where API_URL = "''http://localhost:8000/api''" and jobId = "''job-7''"
      and inps = "[InfoArrives (Some ?data)]" and argss = "[(None, None)]"]
  have f: "page_isTraining ?st = False"
    by code_simp
  have e: "enabledOf (Some True)" and i: "intervalOf (Some 5000) = 5000"
    and i3: "intervalOf (Some 3000) = 3000"
    by (simp_all add: enabledOf_def intervalOf_def)
  have n: "hook_next ?h = 2" and a: "hook_alive ?h = [(1, 3000)]"
    by (simp_all add: enabledOf_def intervalOf_def depsOf_def hookRender_def hookEffect_def
        hookCleanup_def initialHook_def)
  have changed: "[(None, None)] = [] \<or> depsOf (last [(None, None)]) \<noteq> depsOf (Some True, Some 5000)"
    by (simp add: depsOf_def enabledOf_def intervalOf_def)
  have unchanged: "[(None, None)] \<noteq> [] \<and> depsOf (last [(None, None)]) = depsOf (Some True, Some 3000)"
    by (simp add: depsOf_def enabledOf_def intervalOf_def)
  from inst [where enabled = "Some True" and interval = "Some 5000"] e changed
  have on: "snd (hookRender ?h (Some True, Some 5000)) = 1
      \<and> hook_alive (fst (hookRender ?h (Some True, Some 5000)))
        = [(hook_next ?h, intervalOf (Some 5000))]"
    by blast
  from inst [where enabled = "Some True" and interval = "Some 3000"] unchanged
  have same: "hookRender ?h (Some True, Some 3000) = (?h, 0)"
    by blast
  from inst [where enabled = "Some True" and interval = "Some 3000"] e same
  have one: "\<exists>i. hook_alive ?h = [(i, intervalOf (Some 3000))]"
    by (metis fst_conv)
  from inst [where interval = None]
  have off: "hook_alive (fst (hookRender ?h (Some False, None))) = []"
    by blast
  from inst [where interval = None]
  have "page_timer ?st = Some (3000, page_isTraining ?st)"
    and "snd (pageStep ''http://localhost:8000/api'' ''job-7'' ?st Tick)
      = (if page_isTraining ?st
         then [getRequest (''http://localhost:8000/api'' @ ''/jobs/'' @ ''job-7'' @ ''/metrics''),
               getRequest (''http://localhost:8000/api'' @ ''/jobs/'' @ ''job-7'' @ ''/logs'')]
         else [])"
    by blast+
  with f on same a off n i show ?thesis
    by (simp only:) simp
qed

end
